theory Spec2Isabelle
  imports Complex_Main "HOL-Library.Char_ord" "HOL-Library.List_Lexorder" "HOL-Library.Multiset"
    "HOL-Library.Log_Nat"
begin

section \<open>Data model\<close>

text \<open>
  The entity package (User, PullRequest, PRStatus) is imported by the use cases and the
  Postgres repositories; its fields are the ones those files read, write and scan, and the
  columns of migrations/000001\_init.up.sql. A Go string is a \<open>string\<close>; a time.Time is
  an instant counted in nanoseconds, the resolution of time.Now(); the nullable merged\_at
  (a *time.Time) is an option.
\<close>

type_synonym Time = int

type_synonym PRStatus = string

text \<open>Modelled from the spec: the constants entity.PRStatusOpen and entity.PRStatusMerged
  are declared in the entity package; the spec names the two states OPEN and MERGED, and
  the migrations store them as the texts 'OPEN' and 'MERGED'.\<close>

definition PRStatusOpen :: PRStatus where
  "PRStatusOpen = ''OPEN''"

definition PRStatusMerged :: PRStatus where
  "PRStatusMerged = ''MERGED''"

record User =
  UserID :: string
  Username :: string
  TeamName :: string
  IsActive :: bool

record PullRequest =
  PullRequestID :: string
  PullRequestName :: string
  AuthorID :: string
  Status :: PRStatus
  AssignedReviewers :: "string list"
  CreatedAt :: Time
  MergedAt :: "Time option"

text \<open>
  The error values: the five sentinels of package usecase, the two of package postgres
  (usecase.ErrNotFound and postgres.ErrNotFound are different values, and the handlers
  compare with \<open>==\<close>), and any other error of the driver, passed on as it is.
\<close>

datatype err =
    ErrNotFound
  | ErrPRExists
  | ErrPRMerged
  | ErrNotAssigned
  | ErrNoCandidate
  | PgErrNotFound
  | PgErrAlreadyExists
  | DriverError

section \<open>Storage: the Postgres repositories\<close>

text \<open>
  The tables users and pull\_requests are lists of rows, in the order a scan without
  ORDER BY returns them (new rows at the end). \<open>faults\<close> is the script of the
  environment, one entry per round-trip to the database still to come: the round-trip
  works; or it fails with an error of the driver (connection lost, context cancelled); or,
  for a query that returns rows, it breaks off after so many rows have been delivered.
  When the script is used up every round-trip works.

  A statement run with Exec or QueryRow reports every failure as an error. The three list
  queries loop with \<open>for rows.Next()\<close> and return the slice with a nil error without a
  look at rows.Err(): a failure of Query or of Scan is returned as an error, a read that
  breaks off between two rows ends the loop and returns the rows scanned so far.
\<close>

datatype fault = Works | Fails | Breaks nat

record Storage =
  users :: "User list"
  pull_requests :: "PullRequest list"
  faults :: "fault list"

definition round_trip :: "Storage \<Rightarrow> fault \<times> Storage" where
  "round_trip s = (case faults s of [] \<Rightarrow> (Works, s) | f # fs \<Rightarrow> (f, s\<lparr>faults := fs\<rparr>))"

text \<open>What a list query returns of the rows its statement selects.\<close>

fun rows_read :: "fault \<Rightarrow> 'a list \<Rightarrow> err + 'a list" where
  "rows_read Works rows = Inr rows"
| "rows_read Fails rows = Inl DriverError"
| "rows_read (Breaks n) rows = Inr (take n rows)"

text \<open>
  created\_at and merged\_at are TIMESTAMPTZ columns: they hold whole microseconds. The
  driver's encoding of a time.Time drops the nanoseconds below the microsecond, and what
  is scanned from the column has none. The table of the model is a list of records that
  could hold any instant, so a row goes through \<open>column_times\<close> when it is written and
  when it is scanned.
\<close>

definition microseconds :: "Time \<Rightarrow> Time" where
  "microseconds t = t - t mod 1000"

definition column_times :: "PullRequest \<Rightarrow> PullRequest" where
  "column_times pr =
     pr\<lparr>CreatedAt := microseconds (CreatedAt pr),
        MergedAt := map_option microseconds (MergedAt pr)\<rparr>"

text \<open>UserRepo.GetByID: SELECT ... FROM users WHERE user\_id = \$1; pgx.ErrNoRows becomes
  postgres.ErrNotFound.\<close>

definition UserRepo_GetByID :: "Storage \<Rightarrow> string \<Rightarrow> (err + User) \<times> Storage" where
  "UserRepo_GetByID s uid =
     (case round_trip s of (f, s') \<Rightarrow>
        if f \<noteq> Works then (Inl DriverError, s')
        else
          (case find (\<lambda>u. UserID u = uid) (users s') of
             None \<Rightarrow> (Inl PgErrNotFound, s')
           | Some u \<Rightarrow> (Inr u, s')))"

text \<open>UserRepo.Update: UPDATE users SET username, team\_name, is\_active WHERE user\_id = \$4;
  no row affected is postgres.ErrNotFound. \<open>set_user_row u\<close> is what the statement
  does to one row.\<close>

definition set_user_row :: "User \<Rightarrow> User \<Rightarrow> User" where
  "set_user_row u r =
     (if UserID r = UserID u
      then r\<lparr>Username := Username u, TeamName := TeamName u, IsActive := IsActive u\<rparr>
      else r)"

definition UserRepo_Update :: "Storage \<Rightarrow> User \<Rightarrow> err option \<times> Storage" where
  "UserRepo_Update s u =
     (case round_trip s of (f, s') \<Rightarrow>
        if f \<noteq> Works then (Some DriverError, s')
        else if filter (\<lambda>r. UserID r = UserID u) (users s') = [] then (Some PgErrNotFound, s')
        else (None, s'\<lparr>users := map (set_user_row u) (users s')\<rparr>))"

text \<open>UserRepo.ListByTeam: SELECT ... FROM users WHERE team\_name = \$1, with no ORDER BY,
  and UserRepo.ListAll: SELECT ... FROM users.\<close>

definition UserRepo_ListByTeam :: "Storage \<Rightarrow> string \<Rightarrow> (err + User list) \<times> Storage" where
  "UserRepo_ListByTeam s team =
     (case round_trip s of (f, s') \<Rightarrow>
        (rows_read f (filter (\<lambda>u. TeamName u = team) (users s')), s'))"

definition UserRepo_ListAll :: "Storage \<Rightarrow> (err + User list) \<times> Storage" where
  "UserRepo_ListAll s =
     (case round_trip s of (f, s') \<Rightarrow> (rows_read f (users s'), s'))"

text \<open>PRRepo.Create: INSERT INTO pull\_requests; pull\_request\_id is the primary key, and a
  "duplicate key" error becomes postgres.ErrAlreadyExists.\<close>

definition PRRepo_Create :: "Storage \<Rightarrow> PullRequest \<Rightarrow> err option \<times> Storage" where
  "PRRepo_Create s pr =
     (case round_trip s of (f, s') \<Rightarrow>
        if f \<noteq> Works then (Some DriverError, s')
        else if filter (\<lambda>r. PullRequestID r = PullRequestID pr) (pull_requests s') \<noteq> []
        then (Some PgErrAlreadyExists, s')
        else (None, s'\<lparr>pull_requests := pull_requests s' @ [column_times pr]\<rparr>))"

definition PRRepo_GetByID :: "Storage \<Rightarrow> string \<Rightarrow> (err + PullRequest) \<times> Storage" where
  "PRRepo_GetByID s pid =
     (case round_trip s of (f, s') \<Rightarrow>
        if f \<noteq> Works then (Inl DriverError, s')
        else
          (case find (\<lambda>r. PullRequestID r = pid) (pull_requests s') of
             None \<Rightarrow> (Inl PgErrNotFound, s')
           | Some row \<Rightarrow> (Inr (column_times row), s')))"

text \<open>PRRepo.Update: UPDATE pull\_requests SET pull\_request\_name, author\_id, status,
  assigned\_reviewers, merged\_at WHERE pull\_request\_id = \$6 (created\_at is not written);
  no row affected is postgres.ErrNotFound.\<close>

definition set_pr_row :: "PullRequest \<Rightarrow> PullRequest \<Rightarrow> PullRequest" where
  "set_pr_row pr r =
     (if PullRequestID r = PullRequestID pr
      then r\<lparr>PullRequestName := PullRequestName pr, AuthorID := AuthorID pr,
             Status := Status pr, AssignedReviewers := AssignedReviewers pr,
             MergedAt := map_option microseconds (MergedAt pr)\<rparr>
      else r)"

definition PRRepo_Update :: "Storage \<Rightarrow> PullRequest \<Rightarrow> err option \<times> Storage" where
  "PRRepo_Update s pr =
     (case round_trip s of (f, s') \<Rightarrow>
        if f \<noteq> Works then (Some DriverError, s')
        else if filter (\<lambda>r. PullRequestID r = PullRequestID pr) (pull_requests s') = []
        then (Some PgErrNotFound, s')
        else (None, s'\<lparr>pull_requests := map (set_pr_row pr) (pull_requests s')\<rparr>))"

text \<open>PRRepo.ListAll: SELECT ... FROM pull\_requests ORDER BY created\_at DESC.\<close>

definition PRRepo_ListAll :: "Storage \<Rightarrow> (err + PullRequest list) \<times> Storage" where
  "PRRepo_ListAll s =
     (case round_trip s of (f, s') \<Rightarrow>
        (rows_read f (sort_key (\<lambda>r. - CreatedAt r) (map column_times (pull_requests s'))), s'))"

section \<open>float64\<close>

text \<open>
  GetStats divides two float64 values. A float64 is an IEEE 754 binary64 number: 53
  significant bits, rounded to the nearest, a tie to the even significand. \<open>float64 x\<close>
  is the binary64 value nearest to the rational \<open>x\<close>, as a rational; it is what the
  conversion of an integer and the division return. Only the normal range is modelled (no
  overflow to infinity, no subnormal numbers): the quotient of two counters below
  \<open>2 ^ 63\<close>, the range of a Go int, lies in it.
\<close>

definition round_half_even :: "rat \<Rightarrow> int" where
  "round_half_even x =
     (let n = \<lfloor>x\<rfloor>; d = x - of_int n
      in if d < 1 / 2 then n else if 1 / 2 < d then n + 1 else if even n then n else n + 1)"

text \<open>The exponent of a positive rational: \<open>2 powi exponent x \<le> x < 2 powi (exponent x + 1)\<close>.\<close>

definition exponent :: "rat \<Rightarrow> int" where
  "exponent x =
     (case quotient_of x of (p, q) \<Rightarrow>
        (let e = bitlen p - bitlen q in if 2 powi e \<le> x then e else e - 1))"

definition float64 :: "rat \<Rightarrow> rat" where
  "float64 x =
     (if x \<le> 0 then 0
      else of_int (round_half_even (x * 2 powi (52 - exponent x))) * 2 powi (exponent x - 52))"

section \<open>Use cases\<close>

fun contains :: "string list \<Rightarrow> string \<Rightarrow> bool" where
  "contains [] item = False"
| "contains (s # slice) item = (if s = item then True else contains slice item)"

text \<open>The loop of CreatePR over the team members, with the slice \<open>reviewers\<close> as its
  accumulator.\<close>

fun assign_loop :: "string \<Rightarrow> User list \<Rightarrow> string list \<Rightarrow> string list" where
  "assign_loop authorID [] reviewers = reviewers"
| "assign_loop authorID (member # rest) reviewers =
     (if UserID member \<noteq> authorID \<and> IsActive member \<and> length reviewers < 2
      then assign_loop authorID rest (reviewers @ [UserID member])
      else assign_loop authorID rest reviewers)"

definition CreatePR ::
  "Storage \<Rightarrow> string \<Rightarrow> string \<Rightarrow> string \<Rightarrow> Time \<Rightarrow> (err + PullRequest) \<times> Storage" where
  "CreatePR s prID prName authorID now =
     (case PRRepo_GetByID s prID of (existing, s1) \<Rightarrow>
        if (case existing of Inr e \<Rightarrow> PullRequestID e \<noteq> [] | Inl _ \<Rightarrow> False)
        then (Inl ErrPRExists, s1)
        else
          (case UserRepo_GetByID s1 authorID of
             (Inl _, s2) \<Rightarrow> (Inl ErrNotFound, s2)
           | (Inr author, s2) \<Rightarrow>
               (case UserRepo_ListByTeam s2 (TeamName author) of
                  (Inl _, s3) \<Rightarrow> (Inl ErrNotFound, s3)
                | (Inr teamMembers, s3) \<Rightarrow>
                    (let pr = \<lparr>PullRequestID = prID, PullRequestName = prName,
                               AuthorID = authorID, Status = PRStatusOpen,
                               AssignedReviewers = assign_loop authorID teamMembers [],
                               CreatedAt = now, MergedAt = None\<rparr>
                     in (case PRRepo_Create s3 pr of
                           (Some e, s4) \<Rightarrow> (Inl e, s4)
                         | (None, s4) \<Rightarrow> (Inr pr, s4))))))"

definition MergePR :: "Storage \<Rightarrow> string \<Rightarrow> Time \<Rightarrow> (err + PullRequest) \<times> Storage" where
  "MergePR s prID now =
     (case PRRepo_GetByID s prID of
        (Inl _, s1) \<Rightarrow> (Inl ErrNotFound, s1)
      | (Inr pr, s1) \<Rightarrow>
          if Status pr = PRStatusMerged then (Inr pr, s1)
          else
            (let pr' = pr\<lparr>Status := PRStatusMerged, MergedAt := Some now\<rparr>
             in (case PRRepo_Update s1 pr' of
                   (Some e, s2) \<Rightarrow> (Inl e, s2)
                 | (None, s2) \<Rightarrow> (Inr pr', s2))))"

text \<open>The first loop of ReassignReviewer: the first occurrence of oldUserID is cut out of
  the slice and the loop breaks; \<open>None\<close> is \<open>found = false\<close>.\<close>

fun remove_reviewer :: "string \<Rightarrow> string list \<Rightarrow> string list option" where
  "remove_reviewer oldUserID [] = None"
| "remove_reviewer oldUserID (reviewer # rest) =
     (if reviewer = oldUserID then Some rest
      else map_option ((#) reviewer) (remove_reviewer oldUserID rest))"

text \<open>The second loop: the first member that passes the four tests; the empty string when
  the loop ends without a break.\<close>

fun pick_replacement :: "string \<Rightarrow> string list \<Rightarrow> string \<Rightarrow> User list \<Rightarrow> string" where
  "pick_replacement authorID assigned oldUserID [] = []"
| "pick_replacement authorID assigned oldUserID (member # rest) =
     (if UserID member \<noteq> authorID \<and> IsActive member \<and>
         \<not> contains assigned (UserID member) \<and> UserID member \<noteq> oldUserID
      then UserID member
      else pick_replacement authorID assigned oldUserID rest)"

definition ReassignReviewer ::
  "Storage \<Rightarrow> string \<Rightarrow> string \<Rightarrow> (err + PullRequest \<times> string) \<times> Storage" where
  "ReassignReviewer s prID oldUserID =
     (case PRRepo_GetByID s prID of
        (Inl _, s1) \<Rightarrow> (Inl ErrNotFound, s1)
      | (Inr pr, s1) \<Rightarrow>
          if Status pr = PRStatusMerged then (Inl ErrPRMerged, s1)
          else
            (case remove_reviewer oldUserID (AssignedReviewers pr) of
               None \<Rightarrow> (Inl ErrNotAssigned, s1)
             | Some remaining \<Rightarrow>
                 (case UserRepo_GetByID s1 (AuthorID pr) of
                    (Inl _, s2) \<Rightarrow> (Inl ErrNotFound, s2)
                  | (Inr author, s2) \<Rightarrow>
                      (case UserRepo_ListByTeam s2 (TeamName author) of
                         (Inl _, s3) \<Rightarrow> (Inl ErrNotFound, s3)
                       | (Inr teamMembers, s3) \<Rightarrow>
                           (let newReviewerID =
                                  pick_replacement (AuthorID pr) remaining oldUserID teamMembers
                            in if newReviewerID = [] then (Inl ErrNoCandidate, s3)
                               else
                                 (let pr' = pr\<lparr>AssignedReviewers := remaining @ [newReviewerID]\<rparr>
                                  in (case PRRepo_Update s3 pr' of
                                        (Some e, s4) \<Rightarrow> (Inl e, s4)
                                      | (None, s4) \<Rightarrow> (Inr (pr', newReviewerID), s4))))))))"

fun deactivate_loop :: "Storage \<Rightarrow> User list \<Rightarrow> err option \<times> Storage" where
  "deactivate_loop s [] = (None, s)"
| "deactivate_loop s (user # rest) =
     (case UserRepo_Update s (user\<lparr>IsActive := False\<rparr>) of
        (Some e, s') \<Rightarrow> (Some e, s')
      | (None, s') \<Rightarrow> deactivate_loop s' rest)"

definition DeactivateTeam :: "Storage \<Rightarrow> string \<Rightarrow> err option \<times> Storage" where
  "DeactivateTeam s teamName =
     (case UserRepo_ListByTeam s teamName of
        (Inl e, s1) \<Rightarrow> (Some e, s1)
      | (Inr us, s1) \<Rightarrow> deactivate_loop s1 us)"

text \<open>
  GetStats returns a map with six keys; it is a record here. The counters are Go ints
  (64 bits wide, far beyond the number of rows a table holds) and are natural numbers
  here. average\_reviewers is \<open>float64(totalReviewers) / float64(len(prs))\<close>.
\<close>

record Stats =
  total_prs :: nat
  total_users :: nat
  open_prs :: nat
  merged_prs :: nat
  active_users :: nat
  average_reviewers :: rat

text \<open>The loop over the pull requests: open\_prs, merged\_prs and totalReviewers.\<close>

fun pr_loop :: "PullRequest list \<Rightarrow> nat \<times> nat \<times> nat \<Rightarrow> nat \<times> nat \<times> nat" where
  "pr_loop [] acc = acc"
| "pr_loop (pr # rest) (opn, mrg, totalReviewers) =
     pr_loop rest
       (if Status pr = PRStatusOpen then opn + 1 else opn,
        if Status pr = PRStatusOpen then mrg
        else if Status pr = PRStatusMerged then mrg + 1 else mrg,
        totalReviewers + length (AssignedReviewers pr))"

fun user_loop :: "User list \<Rightarrow> nat \<Rightarrow> nat" where
  "user_loop [] active = active"
| "user_loop (user # rest) active = user_loop rest (if IsActive user then active + 1 else active)"

definition GetStats :: "Storage \<Rightarrow> (err + Stats) \<times> Storage" where
  "GetStats s =
     (case PRRepo_ListAll s of
        (Inl e, s1) \<Rightarrow> (Inl e, s1)
      | (Inr prs, s1) \<Rightarrow>
          (case UserRepo_ListAll s1 of
             (Inl e, s2) \<Rightarrow> (Inl e, s2)
           | (Inr us, s2) \<Rightarrow>
               (case pr_loop prs (0, 0, 0) of (opn, mrg, totalReviewers) \<Rightarrow>
                  (Inr \<lparr>total_prs = length prs, total_users = length us,
                        open_prs = opn, merged_prs = mrg,
                        active_users = user_loop us 0,
                        average_reviewers =
                          (if length prs > 0
                           then float64 (float64 (of_nat totalReviewers) /
                                         float64 (of_nat (length prs)))
                           else 0)\<rparr>, s2))))"

section \<open>Vocabulary of the properties\<close>

text \<open>What PRRepo.GetByID and UserRepo.GetByID return for a key when their round-trip
  works, and the roster UserRepo.ListByTeam returns for a team when its read is complete:
  the rows of the team in the order the table holds them.\<close>

definition find_pr :: "Storage \<Rightarrow> string \<Rightarrow> PullRequest option" where
  "find_pr s pid =
     map_option column_times (find (\<lambda>r. PullRequestID r = pid) (pull_requests s))"

definition find_user :: "Storage \<Rightarrow> string \<Rightarrow> User option" where
  "find_user s uid = find (\<lambda>u. UserID u = uid) (users s)"

definition roster :: "Storage \<Rightarrow> string \<Rightarrow> User list" where
  "roster s team = filter (\<lambda>u. TeamName u = team) (users s)"

text \<open>No read of the script breaks off while its rows are fetched: every list query
  returns all its rows or an error.\<close>

fun is_break :: "fault \<Rightarrow> bool" where
  "is_break (Breaks n) = True"
| "is_break f = False"

definition complete_reads :: "Storage \<Rightarrow> bool" where
  "complete_reads s = list_all (\<lambda>f. \<not> is_break f) (faults s)"

text \<open>The eligibility predicates of section 4.1 of the specification: a candidate for a
  new pull request of an author, and a replacement for a reviewer of a pull request whose
  reviewers were \<open>assigned\<close>.\<close>

definition candidate :: "string \<Rightarrow> User \<Rightarrow> bool" where
  "candidate authorID m = (UserID m \<noteq> authorID \<and> IsActive m)"

definition eligible :: "string \<Rightarrow> string list \<Rightarrow> string \<Rightarrow> User \<Rightarrow> bool" where
  "eligible authorID assigned oldUserID m =
     (UserID m \<noteq> authorID \<and> IsActive m \<and> UserID m \<notin> set assigned \<and> UserID m \<noteq> oldUserID)"

text \<open>user\_id is the primary key of users.\<close>

definition user_keys :: "Storage \<Rightarrow> bool" where
  "user_keys s = distinct (map UserID (users s))"

definition reviewers_ok :: "PullRequest \<Rightarrow> bool" where
  "reviewers_ok p = (AuthorID p \<notin> set (AssignedReviewers p) \<and> distinct (AssignedReviewers p))"

text \<open>
  The histories of the service: a request to one of the three lifecycle operations or to
  DeactivateTeam, served whatever it returns, or a change made from outside the engine,
  which replaces the users table (team/add and users/setIsActive write to it through the
  repositories) and the fault script, and is ignored when it breaks the primary key of
  users.
\<close>

datatype request =
    CreateRequest string string string Time
  | MergeRequest string Time
  | ReassignRequest string string
  | DeactivateRequest string
  | Outside "User list" "fault list"

fun serve :: "Storage \<Rightarrow> request \<Rightarrow> Storage" where
  "serve s (CreateRequest prID prName authorID now) = snd (CreatePR s prID prName authorID now)"
| "serve s (MergeRequest prID now) = snd (MergePR s prID now)"
| "serve s (ReassignRequest prID oldUserID) = snd (ReassignReviewer s prID oldUserID)"
| "serve s (DeactivateRequest teamName) = snd (DeactivateTeam s teamName)"
| "serve s (Outside us fs) =
     (if distinct (map UserID us) then s\<lparr>users := us, faults := fs\<rparr> else s)"

definition serve_all :: "Storage \<Rightarrow> request list \<Rightarrow> Storage" where
  "serve_all s requests = foldl serve s requests"

text \<open>The invariant of the storage: the primary key of users, and every stored pull
  request with distinct reviewers that do not include its author.\<close>

definition storage_ok :: "Storage \<Rightarrow> bool" where
  "storage_ok s = (user_keys s \<and> list_all reviewers_ok (pull_requests s))"

text \<open>The record CreatePR builds from the members its roster read returned: the reviewers
  are the first two candidates among them (lemma \<open>assign_loop_Nil\<close> below).\<close>

definition new_pr :: "User list \<Rightarrow> string \<Rightarrow> string \<Rightarrow> string \<Rightarrow> Time \<Rightarrow> PullRequest" where
  "new_pr members prID prName authorID now =
     \<lparr>PullRequestID = prID, PullRequestName = prName, AuthorID = authorID,
      Status = PRStatusOpen,
      AssignedReviewers = take 2 (map UserID (filter (candidate authorID) members)),
      CreatedAt = now, MergedAt = None\<rparr>"

text \<open>The statistics as section 4.4 of the specification words them, over the two tables:
  the counts, and the exact average, the sum of the numbers of reviewers over the number
  of pull requests, 0 when there is none. GetStats above is the code; \<open>spec_stats\<close> is
  what it is compared with.\<close>

definition spec_stats :: "PullRequest list \<Rightarrow> User list \<Rightarrow> Stats" where
  "spec_stats prs us =
     \<lparr>total_prs = length prs, total_users = length us,
      open_prs = length (filter (\<lambda>p. Status p = PRStatusOpen) prs),
      merged_prs = length (filter (\<lambda>p. Status p = PRStatusMerged) prs),
      active_users = length (filter IsActive us),
      average_reviewers =
        (if prs = [] then 0
         else of_nat (sum_list (map (\<lambda>p. length (AssignedReviewers p)) prs)) /
              of_nat (length prs))\<rparr>"


section \<open>Example storages\<close>

text \<open>The team of the end-to-end test, in the order its members are inserted, and its
  pull request pr-1024, created by u1 at the instant 100000 (nanoseconds).\<close>

definition member :: "string \<Rightarrow> string \<Rightarrow> bool \<Rightarrow> User" where
  "member uid name active =
     \<lparr>UserID = uid, Username = name, TeamName = ''backend4'', IsActive = active\<rparr>"

definition backend4 :: Storage where
  "backend4 =
     \<lparr>users = [member ''u1'' ''Alice'' True, member ''u2'' ''Bob'' True,
               member ''u3'' ''Charlie'' True, member ''u9'' ''Donald'' True],
      pull_requests = [], faults = []\<rparr>"

definition pr_1024 :: "string list \<Rightarrow> PullRequest" where
  "pr_1024 reviewers =
     \<lparr>PullRequestID = ''pr-1024'', PullRequestName = ''Test PR'', AuthorID = ''u1'',
      Status = PRStatusOpen, AssignedReviewers = reviewers, CreatedAt = 100000,
      MergedAt = None\<rparr>"


text \<open>The states of the end-to-end test: pr-1024 created, its reviewer u2 reassigned, and
  the pull request merged at the instant 200000 or, a little later, at 200500.\<close>

definition opened :: Storage where
  "opened = backend4\<lparr>pull_requests := [pr_1024 [''u2'', ''u3'']]\<rparr>"

definition reassigned :: Storage where
  "reassigned = backend4\<lparr>pull_requests := [pr_1024 [''u3'', ''u9'']]\<rparr>"

definition merged_1024 :: PullRequest where
  "merged_1024 =
     (pr_1024 [''u3'', ''u9''])\<lparr>Status := PRStatusMerged, MergedAt := Some 200000\<rparr>"

definition merged :: Storage where
  "merged = backend4\<lparr>pull_requests := [merged_1024]\<rparr>"




text \<open>A team of two: the author u1 and the only reviewer u2.\<close>

definition pair_team :: Storage where
  "pair_team =
     \<lparr>users = [member ''u1'' ''Alice'' True, member ''u2'' ''Bob'' True],
      pull_requests = [pr_1024 [''u2'']], faults = []\<rparr>"

text \<open>The second pull request of the end-to-end test, created at the instant 150000, and
  the storage \<open>opened\<close> with four round-trips announced in its script, all of them
  working.\<close>

definition pr_1025 :: PullRequest where
  "pr_1025 = (pr_1024 [''u2'', ''u3''])
     \<lparr>PullRequestID := ''pr-1025'', PullRequestName := ''Test PR2'', CreatedAt := 150000\<rparr>"





definition partly_inactive :: Storage where
  "partly_inactive = backend4\<lparr>users :=
     [member ''u1'' ''Alice'' False, member ''u2'' ''Bob'' False,
      member ''u3'' ''Charlie'' True, member ''u9'' ''Donald'' True]\<rparr>"

text \<open>Two and three pull requests with three reviewers and one reviewer in all.\<close>

definition two_prs :: Storage where
  "two_prs = partly_inactive\<lparr>pull_requests :=
     [merged_1024, pr_1025\<lparr>AssignedReviewers := [''u3'']\<rparr>]\<rparr>"

definition three_prs :: Storage where
  "three_prs = backend4\<lparr>pull_requests :=
     [pr_1024 [''u2''], pr_1025\<lparr>AssignedReviewers := []\<rparr>,
      pr_1025\<lparr>PullRequestID := ''pr-1026'', AssignedReviewers := []\<rparr>]\<rparr>"

section \<open>The loops\<close>

lemma contains_set: "contains xs x = (x \<in> set xs)"
  by (induction xs) auto

lemma remove_reviewer_remove1:
  "remove_reviewer old xs = (if old \<in> set xs then Some (remove1 old xs) else None)"
  by (induction xs) auto

lemma assign_loop_take:
  "length acc \<le> 2 \<Longrightarrow>
   assign_loop a ms acc = acc @ take (2 - length acc) (map UserID (filter (candidate a) ms))"
proof (induction ms arbitrary: acc)
  case Nil
  then show ?case by simp
next
  case (Cons m ms)
  show ?case
  proof (cases "UserID m \<noteq> a \<and> IsActive m \<and> length acc < 2")
    case True
    then have "length (acc @ [UserID m]) \<le> 2" by simp
    from Cons.IH [OF this] True show ?thesis
      by (simp add: take_Cons' Suc_diff_Suc candidate_def)
  next
    case False
    with Cons.IH [OF Cons.prems] Cons.prems show ?thesis
      by (auto simp: le_less candidate_def)
  qed
qed

lemma assign_loop_Nil: "assign_loop a ms [] = take 2 (map UserID (filter (candidate a) ms))"
  using assign_loop_take [of "[]" a ms] by simp

lemma pick_replacement_find:
  "pick_replacement a assigned old ms =
     (case find (eligible a assigned old) ms of None \<Rightarrow> [] | Some m \<Rightarrow> UserID m)"
  by (induction ms) (auto simp: contains_set eligible_def)

lemma find_take_Some: "find P (take n xs) = Some m \<Longrightarrow> find P xs = Some m"
proof (induction xs arbitrary: n)
  case Nil
  then show ?case by simp
next
  case (Cons x xs)
  then show ?case by (cases n) (auto split: if_splits)
qed


section \<open>The repositories\<close>

lemmas demo_defs = backend4_def pr_1024_def member_def PRStatusOpen_def PRStatusMerged_def

lemmas repo_defs = round_trip_def PRRepo_GetByID_def PRRepo_Update_def PRRepo_Create_def
  PRRepo_ListAll_def UserRepo_GetByID_def UserRepo_ListByTeam_def UserRepo_Update_def
  UserRepo_ListAll_def set_pr_row_def set_user_row_def find_pr_def find_user_def roster_def
  column_times_def microseconds_def Let_def

lemma round_trip_tables:
  "round_trip s = (f, s') \<Longrightarrow> users s' = users s \<and> pull_requests s' = pull_requests s"
  by (auto simp: round_trip_def split: list.splits)

lemma round_trip_ok: "faults s = [] \<Longrightarrow> round_trip s = (Works, s)"
  by (simp add: round_trip_def)

lemma round_trip_complete:
  "round_trip s = (f, s') \<Longrightarrow> complete_reads s \<Longrightarrow> complete_reads s' \<and> \<not> is_break f"
  by (auto simp: round_trip_def complete_reads_def split: list.splits)

lemma rows_read_Inr: "rows_read f rows = Inr ms \<Longrightarrow> \<exists>n. ms = take n rows"
proof (cases f)
  case Works
  assume "rows_read f rows = Inr ms"
  with Works have "ms = take (length rows) rows" by simp
  then show ?thesis by blast
next
  case Fails
  assume "rows_read f rows = Inr ms"
  with Fails show ?thesis by simp
next
  case (Breaks n)
  assume "rows_read f rows = Inr ms"
  with Breaks show ?thesis by auto
qed

lemma rows_read_complete: "rows_read f rows = Inr ms \<Longrightarrow> \<not> is_break f \<Longrightarrow> ms = rows"
  by (cases f) auto

lemma microseconds_idem: "microseconds (microseconds t) = microseconds t"
  by (simp add: microseconds_def)

lemma column_times_idem: "column_times (column_times pr) = column_times pr"
  by (cases "MergedAt pr") (simp_all add: column_times_def microseconds_idem)

lemma column_times_fields:
  "PullRequestID (column_times pr) = PullRequestID pr"
  "PullRequestName (column_times pr) = PullRequestName pr"
  "AuthorID (column_times pr) = AuthorID pr"
  "Status (column_times pr) = Status pr"
  "AssignedReviewers (column_times pr) = AssignedReviewers pr"
  by (simp_all add: column_times_def)

lemma column_times_set_pr_row:
  "column_times (set_pr_row pr r) = set_pr_row pr (column_times r)"
  by (cases "MergedAt pr") (simp_all add: column_times_def set_pr_row_def microseconds_idem)

lemma PRRepo_GetByID_tables:
  "PRRepo_GetByID s pid = (r, s') \<Longrightarrow> users s' = users s \<and> pull_requests s' = pull_requests s"
  by (auto simp: PRRepo_GetByID_def split: prod.splits option.splits if_splits
      dest: round_trip_tables)

lemma PRRepo_GetByID_Inr:
  "PRRepo_GetByID s pid = (Inr pr, s') \<Longrightarrow> find_pr s pid = Some pr"
  by (auto simp: PRRepo_GetByID_def find_pr_def split: prod.splits option.splits if_splits
      dest: round_trip_tables)

lemma PRRepo_GetByID_complete:
  "PRRepo_GetByID s pid = (r, s') \<Longrightarrow> complete_reads s \<Longrightarrow> complete_reads s'"
  by (auto simp: PRRepo_GetByID_def split: prod.splits option.splits if_splits
      dest: round_trip_complete)

lemma UserRepo_GetByID_tables:
  "UserRepo_GetByID s uid = (r, s') \<Longrightarrow> users s' = users s \<and> pull_requests s' = pull_requests s"
  by (auto simp: UserRepo_GetByID_def split: prod.splits option.splits if_splits
      dest: round_trip_tables)

lemma UserRepo_GetByID_Inr:
  "UserRepo_GetByID s uid = (Inr u, s') \<Longrightarrow> find_user s uid = Some u"
  by (auto simp: UserRepo_GetByID_def find_user_def split: prod.splits option.splits if_splits
      dest: round_trip_tables)

lemma UserRepo_GetByID_complete:
  "UserRepo_GetByID s uid = (r, s') \<Longrightarrow> complete_reads s \<Longrightarrow> complete_reads s'"
  by (auto simp: UserRepo_GetByID_def split: prod.splits option.splits if_splits
      dest: round_trip_complete)

lemma UserRepo_ListByTeam_tables:
  "UserRepo_ListByTeam s t = (r, s') \<Longrightarrow> users s' = users s \<and> pull_requests s' = pull_requests s"
  by (auto simp: UserRepo_ListByTeam_def split: prod.splits dest: round_trip_tables)

lemma UserRepo_ListByTeam_Inr:
  assumes "UserRepo_ListByTeam s t = (Inr ms, s')"
  shows "\<exists>n. ms = take n (roster s t)"
proof -
  obtain f s1 where rt: "round_trip s = (f, s1)" by (cases "round_trip s")
  with assms round_trip_tables [OF rt] have "rows_read f (roster s t) = Inr ms"
    by (simp add: UserRepo_ListByTeam_def roster_def)
  then show ?thesis by (rule rows_read_Inr)
qed

lemma UserRepo_ListByTeam_complete:
  assumes "UserRepo_ListByTeam s t = (Inr ms, s')" and "complete_reads s"
  shows "ms = roster s t"
proof -
  obtain f s1 where rt: "round_trip s = (f, s1)" by (cases "round_trip s")
  with assms(1) round_trip_tables [OF rt] have "rows_read f (roster s t) = Inr ms"
    by (simp add: UserRepo_ListByTeam_def roster_def)
  with round_trip_complete [OF rt assms(2)] show ?thesis by (auto dest: rows_read_complete)
qed

lemma PRRepo_Update_None:
  "PRRepo_Update s pr = (None, s') \<Longrightarrow>
   users s' = users s \<and> pull_requests s' = map (set_pr_row pr) (pull_requests s)"
  by (auto simp: PRRepo_Update_def split: prod.splits if_splits dest: round_trip_tables)

lemma PRRepo_Update_Some:
  "PRRepo_Update s pr = (Some e, s') \<Longrightarrow>
   users s' = users s \<and> pull_requests s' = pull_requests s"
  by (auto simp: PRRepo_Update_def split: prod.splits if_splits dest: round_trip_tables)

lemma PRRepo_Create_None:
  assumes "PRRepo_Create s pr = (None, s')"
  shows "users s' = users s \<and> pull_requests s' = pull_requests s @ [column_times pr]"
proof -
  obtain f s1 where rt: "round_trip s = (f, s1)" by (cases "round_trip s")
  from round_trip_tables [OF rt] assms rt show ?thesis
    by (auto simp: PRRepo_Create_def split: if_splits)
qed

lemma PRRepo_Create_Some:
  "PRRepo_Create s pr = (Some e, s') \<Longrightarrow>
   users s' = users s \<and> pull_requests s' = pull_requests s"
  by (auto simp: PRRepo_Create_def split: prod.splits if_splits dest: round_trip_tables)

text \<open>With an empty fault script every repository call is its query on the tables.\<close>

lemma PRRepo_GetByID_ok:
  "faults s = [] \<Longrightarrow>
   PRRepo_GetByID s pid =
     (case find_pr s pid of None \<Rightarrow> Inl PgErrNotFound | Some pr \<Rightarrow> Inr pr, s)"
  by (simp add: PRRepo_GetByID_def find_pr_def round_trip_ok split: option.splits)

lemma UserRepo_GetByID_ok:
  "faults s = [] \<Longrightarrow>
   UserRepo_GetByID s uid =
     (case find_user s uid of None \<Rightarrow> Inl PgErrNotFound | Some u \<Rightarrow> Inr u, s)"
  by (simp add: UserRepo_GetByID_def find_user_def round_trip_ok split: option.splits)

lemma UserRepo_ListByTeam_ok:
  "faults s = [] \<Longrightarrow> UserRepo_ListByTeam s t = (Inr (roster s t), s)"
  by (simp add: UserRepo_ListByTeam_def roster_def round_trip_ok)

lemma find_filter_Nil: "(filter P xs = []) = (find P xs = None)"
  by (induction xs) auto

lemma PRRepo_Update_ok:
  "faults s = [] \<Longrightarrow> find_pr s (PullRequestID pr) = Some r \<Longrightarrow>
   PRRepo_Update s pr = (None, s\<lparr>pull_requests := map (set_pr_row pr) (pull_requests s)\<rparr>)"
  by (auto simp: PRRepo_Update_def find_pr_def round_trip_ok find_filter_Nil)


lemma find_map_set_pr_row:
  "find (\<lambda>r. PullRequestID r = pid) (map (set_pr_row pr) rows) =
     map_option (set_pr_row pr) (find (\<lambda>r. PullRequestID r = pid) rows)"
  by (induction rows) (auto simp: set_pr_row_def)


lemma find_pr_id: "find_pr s pid = Some pr \<Longrightarrow> PullRequestID pr = pid"
  by (auto simp: find_pr_def find_Some_iff column_times_fields)

lemma find_pr_column: "find_pr s pid = Some pr \<Longrightarrow> column_times pr = pr"
  by (auto simp: find_pr_def column_times_idem)

lemma find_pr_row:
  "find_pr s pid = Some pr \<Longrightarrow> \<exists>row\<in>set (pull_requests s). pr = column_times row"
  by (auto simp: find_pr_def find_Some_iff)

lemma find_pr_after_update:
  "find_pr s pid = Some r \<Longrightarrow> pull_requests s' = map (set_pr_row pr) (pull_requests s) \<Longrightarrow>
   find_pr s' pid = Some (set_pr_row pr r)"
  by (auto simp: find_pr_def find_map_set_pr_row column_times_set_pr_row)

lemma find_pr_other_update:
  assumes "pull_requests s' = map (set_pr_row pr) (pull_requests s)"
    and "q \<noteq> PullRequestID pr"
  shows "find_pr s' q = find_pr s q"
proof -
  have "find (\<lambda>r. PullRequestID r = q) (map (set_pr_row pr) rows) =
        find (\<lambda>r. PullRequestID r = q) rows" for rows
    using assms(2) by (induction rows) (auto simp: set_pr_row_def)
  with assms(1) show ?thesis by (simp add: find_pr_def)
qed

text \<open>A record scanned from the table, with some of the fields the UPDATE writes changed
  and its times as scanned, is the record the UPDATE leaves in its row.\<close>

lemma set_pr_row_scanned:
  assumes "column_times pr = pr" and "PullRequestID pr' = PullRequestID pr"
    and "CreatedAt pr' = CreatedAt pr" and "MergedAt pr' = MergedAt pr"
  shows "set_pr_row pr' pr = pr'"
proof -
  from assms(1) have "map_option microseconds (MergedAt pr) = MergedAt pr"
    by (cases "MergedAt pr") (auto simp: column_times_def dest: arg_cong [where f = MergedAt])
  with assms(2-) show ?thesis by (simp add: set_pr_row_def)
qed

section \<open>What a call leaves in the tables\<close>

text \<open>For every fault script: a call that returns an error leaves both tables as they
  were, and a call that succeeds went through each of its reads.\<close>

lemma CreatePR_Inr:
  assumes "CreatePR s prID prName authorID now = (Inr pr, s')"
  shows "\<exists>author n. find_user s authorID = Some author \<and>
           pr = new_pr (take n (roster s (TeamName author))) prID prName authorID now \<and>
           (complete_reads s \<longrightarrow>
              pr = new_pr (roster s (TeamName author)) prID prName authorID now) \<and>
           users s' = users s \<and> pull_requests s' = pull_requests s @ [column_times pr]"
proof -
  obtain x s1 where g: "PRRepo_GetByID s prID = (x, s1)" by (cases "PRRepo_GetByID s prID")
  obtain y s2 where u: "UserRepo_GetByID s1 authorID = (y, s2)"
    by (cases "UserRepo_GetByID s1 authorID")
  from assms g u obtain author where y: "y = Inr author"
    by (cases y) (auto simp: CreatePR_def split: if_splits)
  obtain z s3 where l: "UserRepo_ListByTeam s2 (TeamName author) = (z, s3)"
    by (cases "UserRepo_ListByTeam s2 (TeamName author)")
  from assms g u y l obtain ms where z: "z = Inr ms"
    by (cases z) (auto simp: CreatePR_def split: if_splits)
  note t1 = PRRepo_GetByID_tables [OF g] and t2 = UserRepo_GetByID_tables [OF u]
    and t3 = UserRepo_ListByTeam_tables [OF l]
  have fu: "find_user s authorID = Some author"
    using UserRepo_GetByID_Inr [OF u [unfolded y]] t1 by (simp add: find_user_def)
  have ro: "roster s2 (TeamName author) = roster s (TeamName author)"
    using t1 t2 by (simp add: roster_def)
  from UserRepo_ListByTeam_Inr [OF l [unfolded z]] ro
  obtain n where ms: "ms = take n (roster s (TeamName author))" by auto
  have full: "ms = roster s (TeamName author)" if "complete_reads s"
  proof -
    from that have "complete_reads s2"
      by (blast intro: PRRepo_GetByID_complete [OF g] UserRepo_GetByID_complete [OF u])
    from UserRepo_ListByTeam_complete [OF l [unfolded z] this] ro show ?thesis by simp
  qed
  let ?pr = "new_pr ms prID prName authorID now"
  obtain e s4 where c: "PRRepo_Create s3 ?pr = (e, s4)" by (cases "PRRepo_Create s3 ?pr")
  from assms g u y l z c have res: "e = None \<and> pr = ?pr \<and> s' = s4"
    by (auto simp: CreatePR_def Let_def assign_loop_Nil new_pr_def split: if_splits option.splits)
  with PRRepo_Create_None [of s3 ?pr s4] c t1 t2 t3
  have tab: "users s' = users s \<and> pull_requests s' = pull_requests s @ [column_times pr]"
    by auto
  from res ms have A: "pr = new_pr (take n (roster s (TeamName author))) prID prName authorID now"
    by simp
  from res full have B: "complete_reads s \<longrightarrow>
      pr = new_pr (roster s (TeamName author)) prID prName authorID now"
    by simp
  from fu A B tab show ?thesis by blast
qed

lemma CreatePR_Inl:
  assumes "CreatePR s prID prName authorID now = (Inl e, s')"
  shows "users s' = users s \<and> pull_requests s' = pull_requests s"
proof -
  obtain x s1 where g: "PRRepo_GetByID s prID = (x, s1)" by (cases "PRRepo_GetByID s prID")
  obtain y s2 where u: "UserRepo_GetByID s1 authorID = (y, s2)"
    by (cases "UserRepo_GetByID s1 authorID")
  note t1 = PRRepo_GetByID_tables [OF g] and t2 = UserRepo_GetByID_tables [OF u]
  show ?thesis
  proof (cases "case x of Inr e \<Rightarrow> PullRequestID e \<noteq> [] | Inl _ \<Rightarrow> False")
    case True
    with assms g t1 show ?thesis by (simp add: CreatePR_def)
  next
    case nx: False
    show ?thesis
    proof (cases y)
      case (Inl a)
      with assms g u nx t1 t2 show ?thesis by (simp add: CreatePR_def)
    next
      case (Inr author)
      obtain z s3 where l: "UserRepo_ListByTeam s2 (TeamName author) = (z, s3)"
        by (cases "UserRepo_ListByTeam s2 (TeamName author)")
      note t3 = UserRepo_ListByTeam_tables [OF l]
      show ?thesis
      proof (cases z)
        case (Inl a)
        with assms g u nx Inr l t1 t2 t3 show ?thesis by (simp add: CreatePR_def)
      next
        case zr: (Inr ms)
        let ?pr = "\<lparr>PullRequestID = prID, PullRequestName = prName, AuthorID = authorID,
            Status = PRStatusOpen, AssignedReviewers = assign_loop authorID ms [],
            CreatedAt = now, MergedAt = None\<rparr>"
        obtain e' s4 where c: "PRRepo_Create s3 ?pr = (e', s4)" by (cases "PRRepo_Create s3 ?pr")
        from assms g u nx Inr l zr c obtain e2 where "e' = Some e2" and "s' = s4"
          by (auto simp: CreatePR_def Let_def split: option.splits)
        with PRRepo_Create_Some [of s3 ?pr e2 s4] c t1 t2 t3 show ?thesis by simp
      qed
    qed
  qed
qed

text \<open>A call of MergePR that returns a pull request either found it merged and wrote
  nothing, or found it in another state and wrote the merged record back.\<close>

lemma MergePR_Inr:
  assumes "MergePR s prID now = (Inr pr, s')"
  shows "users s' = users s \<and>
    ((find_pr s prID = Some pr \<and> Status pr = PRStatusMerged \<and>
      pull_requests s' = pull_requests s) \<or>
     (\<exists>p0. find_pr s prID = Some p0 \<and> Status p0 \<noteq> PRStatusMerged \<and>
        pr = p0\<lparr>Status := PRStatusMerged, MergedAt := Some now\<rparr> \<and>
        pull_requests s' = map (set_pr_row pr) (pull_requests s)))"
proof -
  obtain r s1 where g: "PRRepo_GetByID s prID = (r, s1)" by (cases "PRRepo_GetByID s prID")
  with assms obtain p0 where r: "r = Inr p0" by (cases r) (auto simp: MergePR_def)
  note t1 = PRRepo_GetByID_tables [OF g] and f = PRRepo_GetByID_Inr [OF g [unfolded r]]
  show ?thesis
  proof (cases "Status p0 = PRStatusMerged")
    case True
    with assms g r t1 f show ?thesis by (auto simp: MergePR_def)
  next
    case False
    let ?pr = "p0\<lparr>Status := PRStatusMerged, MergedAt := Some now\<rparr>"
    obtain e s2 where u: "PRRepo_Update s1 ?pr = (e, s2)" by (cases "PRRepo_Update s1 ?pr")
    with assms g r False have e: "e = None" and pr: "pr = ?pr" and s': "s' = s2"
      by (auto simp: MergePR_def Let_def split: option.splits)
    from PRRepo_Update_None [OF u [unfolded e]] t1 f False pr s' show ?thesis by auto
  qed
qed

lemma MergePR_Inl:
  assumes "MergePR s prID now = (Inl e, s')"
  shows "users s' = users s \<and> pull_requests s' = pull_requests s"
proof -
  obtain x s1 where g: "PRRepo_GetByID s prID = (x, s1)" by (cases "PRRepo_GetByID s prID")
  note t1 = PRRepo_GetByID_tables [OF g]
  show ?thesis
  proof (cases x)
    case (Inl a)
    with assms g t1 show ?thesis by (simp add: MergePR_def)
  next
    case (Inr pr)
    let ?pr = "pr\<lparr>Status := PRStatusMerged, MergedAt := Some now\<rparr>"
    obtain e' s2 where c: "PRRepo_Update s1 ?pr = (e', s2)" by (cases "PRRepo_Update s1 ?pr")
    from assms g Inr c obtain e2 where "e' = Some e2" and "s' = s2"
      by (auto simp: MergePR_def Let_def split: option.splits if_splits)
    with PRRepo_Update_Some [of s1 ?pr e2 s2] c t1 show ?thesis by simp
  qed
qed

lemma eligible_remove1:
  "eligible a (remove1 old xs) old m = eligible a xs old m"
proof -
  have "x \<noteq> old \<Longrightarrow> (x \<in> set (remove1 old xs)) = (x \<in> set xs)" for x
    by (induction xs) auto
  then show ?thesis by (auto simp: eligible_def)
qed

lemma eligible_remove1_fun: "eligible a (remove1 old xs) old = eligible a xs old"
  by (rule ext) (rule eligible_remove1)

text \<open>A roster read that breaks off returns a first part of the roster; the member the
  second loop finds in it is the first eligible member of the whole roster.\<close>

lemma ReassignReviewer_Inr:
  assumes "ReassignReviewer s prID old = (Inr (pr', r), s')"
  shows "\<exists>pr author m. find_pr s prID = Some pr \<and> Status pr \<noteq> PRStatusMerged \<and>
           old \<in> set (AssignedReviewers pr) \<and> find_user s (AuthorID pr) = Some author \<and>
           find (eligible (AuthorID pr) (AssignedReviewers pr) old) (roster s (TeamName author)) = Some m \<and>
           r = UserID m \<and> r \<noteq> [] \<and>
           pr' = pr\<lparr>AssignedReviewers := remove1 old (AssignedReviewers pr) @ [r]\<rparr> \<and>
           users s' = users s \<and> pull_requests s' = map (set_pr_row pr') (pull_requests s)"
proof -
  obtain x s1 where g: "PRRepo_GetByID s prID = (x, s1)" by (cases "PRRepo_GetByID s prID")
  with assms obtain pr where x: "x = Inr pr" by (cases x) (auto simp: ReassignReviewer_def)
  note t1 = PRRepo_GetByID_tables [OF g] and f = PRRepo_GetByID_Inr [OF g [unfolded x]]
  from assms g x have nm: "Status pr \<noteq> PRStatusMerged"
    by (auto simp: ReassignReviewer_def split: if_splits)
  with assms g x have mem: "old \<in> set (AssignedReviewers pr)"
    by (auto simp: ReassignReviewer_def remove_reviewer_remove1 split: if_splits)
  let ?rem = "remove1 old (AssignedReviewers pr)"
  obtain y s2 where u: "UserRepo_GetByID s1 (AuthorID pr) = (y, s2)"
    by (cases "UserRepo_GetByID s1 (AuthorID pr)")
  from assms g x nm mem u obtain author where y: "y = Inr author"
    by (cases y) (auto simp: ReassignReviewer_def remove_reviewer_remove1)
  obtain z s3 where l: "UserRepo_ListByTeam s2 (TeamName author) = (z, s3)"
    by (cases "UserRepo_ListByTeam s2 (TeamName author)")
  from assms g x nm mem u y l obtain ms where z: "z = Inr ms"
    by (cases z) (auto simp: ReassignReviewer_def remove_reviewer_remove1)
  note t2 = UserRepo_GetByID_tables [OF u] and t3 = UserRepo_ListByTeam_tables [OF l]
  have fu: "find_user s (AuthorID pr) = Some author"
    using UserRepo_GetByID_Inr [OF u [unfolded y]] t1 by (simp add: find_user_def)
  have ro: "roster s2 (TeamName author) = roster s (TeamName author)"
    using t1 t2 by (simp add: roster_def)
  from UserRepo_ListByTeam_Inr [OF l [unfolded z]] ro
  obtain n where ms: "ms = take n (roster s (TeamName author))" by auto
  let ?new = "pick_replacement (AuthorID pr) ?rem old ms"
  from assms g x nm mem u y l z have ne: "?new \<noteq> []"
    by (auto simp: ReassignReviewer_def remove_reviewer_remove1 Let_def split: if_splits)
  let ?pr = "pr\<lparr>AssignedReviewers := ?rem @ [?new]\<rparr>"
  obtain e s4 where c: "PRRepo_Update s3 ?pr = (e, s4)" by (cases "PRRepo_Update s3 ?pr")
  from assms g x nm mem u y l z ne c have res: "e = None \<and> pr' = ?pr \<and> r = ?new \<and> s' = s4"
    by (auto simp: ReassignReviewer_def remove_reviewer_remove1 Let_def split: option.splits)
  from ne obtain m where m0: "find (eligible (AuthorID pr) (AssignedReviewers pr) old) ms = Some m"
    and rm: "?new = UserID m"
    by (auto simp: pick_replacement_find eligible_remove1_fun split: option.splits)
  from m0 ms have m: "find (eligible (AuthorID pr) (AssignedReviewers pr) old)
      (roster s (TeamName author)) = Some m"
    by (auto dest: find_take_Some)
  from PRRepo_Update_None [of s3 ?pr s4] c res t1 t2 t3 f nm mem fu m rm ne
  show ?thesis by auto
qed

lemma ReassignReviewer_Inl:
  assumes "ReassignReviewer s prID old = (Inl e, s')"
  shows "users s' = users s \<and> pull_requests s' = pull_requests s"
proof -
  obtain x s1 where g: "PRRepo_GetByID s prID = (x, s1)" by (cases "PRRepo_GetByID s prID")
  note t1 = PRRepo_GetByID_tables [OF g]
  show ?thesis
  proof (cases x)
    case (Inl a)
    with assms g t1 show ?thesis by (simp add: ReassignReviewer_def)
  next
    case xr: (Inr pr)
    show ?thesis
    proof (cases "Status pr = PRStatusMerged \<or> old \<notin> set (AssignedReviewers pr)")
      case True
      with assms g xr t1 show ?thesis
        by (auto simp: ReassignReviewer_def remove_reviewer_remove1 split: if_splits)
    next
      case ok: False
      let ?rem = "remove1 old (AssignedReviewers pr)"
      obtain y s2 where u: "UserRepo_GetByID s1 (AuthorID pr) = (y, s2)"
        by (cases "UserRepo_GetByID s1 (AuthorID pr)")
      note t2 = UserRepo_GetByID_tables [OF u]
      show ?thesis
      proof (cases y)
        case (Inl a)
        with assms g xr ok u t1 t2 show ?thesis
          by (auto simp: ReassignReviewer_def remove_reviewer_remove1)
      next
        case yr: (Inr author)
        obtain z s3 where l: "UserRepo_ListByTeam s2 (TeamName author) = (z, s3)"
          by (cases "UserRepo_ListByTeam s2 (TeamName author)")
        note t3 = UserRepo_ListByTeam_tables [OF l]
        show ?thesis
        proof (cases z)
          case (Inl a)
          with assms g xr ok u yr l t1 t2 t3 show ?thesis
            by (auto simp: ReassignReviewer_def remove_reviewer_remove1)
        next
          case zr: (Inr ms)
          let ?new = "pick_replacement (AuthorID pr) ?rem old ms"
          show ?thesis
          proof (cases "?new = []")
            case True
            with assms g xr ok u yr l zr t1 t2 t3 show ?thesis
              by (auto simp: ReassignReviewer_def remove_reviewer_remove1 Let_def)
          next
            case False
            let ?pr = "pr\<lparr>AssignedReviewers := ?rem @ [?new]\<rparr>"
            obtain e' s4 where c: "PRRepo_Update s3 ?pr = (e', s4)"
              by (cases "PRRepo_Update s3 ?pr")
            from assms g xr ok u yr l zr False c obtain e2 where "e' = Some e2" and "s' = s4"
              by (auto simp: ReassignReviewer_def remove_reviewer_remove1 Let_def
                  split: option.splits)
            with PRRepo_Update_Some [of s3 ?pr e2 s4] c t1 t2 t3 show ?thesis by simp
          qed
        qed
      qed
    qed
  qed
qed

section \<open>MergePR\<close>

text \<open>
  C3, as stated, fails on the digits below the microsecond: the first call returns the
  record with merged\_at the time.Now() of the call, in nanoseconds, and stores it in a
  TIMESTAMPTZ column; the second call returns what is scanned from the column. Merged at
  the instant 200500, pr-1024 comes back with merged\_at 200500 from the first call and
  with 200000 from the second.
\<close>

theorem MergePR_precision_counterexample:
  "MergePR reassigned ''pr-1024'' 200500 =
     (Inr (merged_1024\<lparr>MergedAt := Some 200500\<rparr>), merged) \<and>
   MergePR merged ''pr-1024'' 300000 = (Inr merged_1024, merged) \<and>
   MergedAt (merged_1024\<lparr>MergedAt := Some 200500\<rparr>) \<noteq> MergedAt merged_1024"
  by (simp add: MergePR_def demo_defs reassigned_def merged_1024_def merged_def repo_defs)

text \<open>
  C3, amended. After a call of MergePR that returned a pull request, a second call (at any
  later instant \<open>t2\<close>, its round-trip to the database working) returns no error and the
  stored record, which is MERGED and is the record of the first call with its merged\_at
  cut to the whole microseconds of the column; it returns the storage as it was, so
  merged\_at is not stamped again and every later call returns the same. Where the
  merged\_at of the first call has no digits below the microsecond, the second call
  returns the very record of the first.
\<close>

theorem MergePR_idempotent:
  assumes "MergePR s prID t1 = (Inr pr, s1)" and "faults s1 = []"
  shows "MergePR s1 prID t2 = (Inr (pr\<lparr>MergedAt := map_option microseconds (MergedAt pr)\<rparr>), s1) \<and>
         find_pr s1 prID = Some (pr\<lparr>MergedAt := map_option microseconds (MergedAt pr)\<rparr>) \<and>
         Status pr = PRStatusMerged \<and>
         ((\<forall>t\<in>set_option (MergedAt pr). t mod 1000 = 0) \<longrightarrow>
            MergePR s1 prID t2 = (Inr pr, s1))"
proof -
  let ?st = "pr\<lparr>MergedAt := map_option microseconds (MergedAt pr)\<rparr>"
  have st: "find_pr s1 prID = Some ?st \<and> Status pr = PRStatusMerged"
    using MergePR_Inr [OF assms(1)]
  proof (elim conjE disjE exE)
    assume a: "find_pr s prID = Some pr" "Status pr = PRStatusMerged"
      "pull_requests s1 = pull_requests s"
    from find_pr_column [OF a(1)] have "?st = pr"
      by (cases "MergedAt pr") (auto simp: column_times_def dest: arg_cong [where f = MergedAt])
    with a show ?thesis by (simp add: find_pr_def)
  next
    fix p0
    assume a: "find_pr s prID = Some p0"
      "pr = p0\<lparr>Status := PRStatusMerged, MergedAt := Some t1\<rparr>"
      "pull_requests s1 = map (set_pr_row pr) (pull_requests s)"
    from find_pr_id [OF a(1)] a(2) have "set_pr_row pr p0 = ?st" by (simp add: set_pr_row_def)
    with find_pr_after_update [OF a(1) a(3)] a(2) show ?thesis by simp
  qed
  then have m: "MergePR s1 prID t2 = (Inr ?st, s1)"
    using assms(2) by (simp add: MergePR_def PRRepo_GetByID_ok)
  have "?st = pr" if "\<forall>t\<in>set_option (MergedAt pr). t mod 1000 = 0"
    using that by (cases "MergedAt pr") (simp_all add: microseconds_def)
  with m st show ?thesis by simp
qed

theorem MergePR_idempotent_witness:
  "MergePR reassigned ''pr-1024'' 200500 =
     (Inr (merged_1024\<lparr>MergedAt := Some 200500\<rparr>), merged) \<and>
   faults merged = [] \<and>
   MergePR merged ''pr-1024'' 300000 = (Inr merged_1024, merged) \<and>
   find_pr merged ''pr-1024'' = Some merged_1024 \<and>
   Status merged_1024 = PRStatusMerged \<and>
   MergePR reassigned ''pr-1024'' 200000 = (Inr merged_1024, merged) \<and>
   MergedAt merged_1024 = Some 200000 \<and> (200000::int) mod 1000 = 0"
proof -
  have h1: "MergePR reassigned ''pr-1024'' 200500 =
      (Inr (merged_1024\<lparr>MergedAt := Some 200500\<rparr>), merged)"
    by (simp add: MergePR_def demo_defs reassigned_def merged_1024_def merged_def repo_defs)
  have h2: "faults merged = []" by (simp add: demo_defs merged_def)
  have h3: "MergePR reassigned ''pr-1024'' 200000 = (Inr merged_1024, merged)"
    by (simp add: MergePR_def demo_defs reassigned_def merged_1024_def merged_def repo_defs)
  have e: "merged_1024\<lparr>MergedAt := Some 200500,
      MergedAt := map_option microseconds (MergedAt (merged_1024\<lparr>MergedAt := Some 200500\<rparr>))\<rparr>
      = merged_1024"
    by (simp add: merged_1024_def microseconds_def)
  have f: "MergedAt merged_1024 = Some 200000" by (simp add: merged_1024_def)
  from MergePR_idempotent [OF h1 h2, of 300000] e
  have a: "MergePR merged ''pr-1024'' 300000 = (Inr merged_1024, merged)"
    "find_pr merged ''pr-1024'' = Some merged_1024"
    by simp_all
  from MergePR_idempotent [OF h3 h2, of 300000] f
  have b: "Status merged_1024 = PRStatusMerged" by simp
  from h1 h2 h3 a b f show ?thesis by simp
qed

text \<open>
  C10. When MergePR takes a pull request from OPEN to MERGED, the record it returns and
  the record it persists have the status MERGED and as merged\_at the instant of the call
  (in the table: at the precision of the column), and their pull\_request\_id,
  pull\_request\_name, author\_id, assigned\_reviewers and created\_at are the values read
  from storage. The users and every other pull request stay as they were.
\<close>

theorem MergePR_frame:
  assumes "faults s = []" and "find_pr s prID = Some pr" and "Status pr = PRStatusOpen"
  shows "\<exists>pr' stored s'. MergePR s prID now = (Inr pr', s') \<and>
      find_pr s' prID = Some stored \<and>
      Status pr' = PRStatusMerged \<and> MergedAt pr' = Some now \<and>
      PullRequestID pr' = PullRequestID pr \<and> PullRequestName pr' = PullRequestName pr \<and>
      AuthorID pr' = AuthorID pr \<and> AssignedReviewers pr' = AssignedReviewers pr \<and>
      CreatedAt pr' = CreatedAt pr \<and>
      Status stored = PRStatusMerged \<and> MergedAt stored = Some (microseconds now) \<and>
      PullRequestID stored = PullRequestID pr \<and>
      PullRequestName stored = PullRequestName pr \<and>
      AuthorID stored = AuthorID pr \<and> AssignedReviewers stored = AssignedReviewers pr \<and>
      CreatedAt stored = CreatedAt pr \<and>
      users s' = users s \<and> faults s' = [] \<and> (\<forall>q. q \<noteq> prID \<longrightarrow> find_pr s' q = find_pr s q)"
proof -
  let ?pr = "pr\<lparr>Status := PRStatusMerged, MergedAt := Some now\<rparr>"
  let ?st = "pr\<lparr>Status := PRStatusMerged, MergedAt := Some (microseconds now)\<rparr>"
  let ?s = "s\<lparr>pull_requests := map (set_pr_row ?pr) (pull_requests s)\<rparr>"
  have id: "PullRequestID pr = prID" by (rule find_pr_id [OF assms(2)])
  have ne: "Status pr \<noteq> PRStatusMerged"
    using assms(3) by (simp add: PRStatusOpen_def PRStatusMerged_def)
  have u: "PRRepo_Update s ?pr = (None, ?s)"
    by (rule PRRepo_Update_ok [OF assms(1)]) (simp add: id assms(2))
  have m: "MergePR s prID now = (Inr ?pr, ?s)"
    using assms(1,2) ne u by (simp add: MergePR_def PRRepo_GetByID_ok Let_def)
  have row: "set_pr_row ?pr pr = ?st" by (simp add: set_pr_row_def)
  have f: "find_pr ?s prID = Some ?st"
    using find_pr_after_update [OF assms(2), of ?s ?pr] row by simp
  have o: "\<forall>q. q \<noteq> prID \<longrightarrow> find_pr ?s q = find_pr s q"
    using find_pr_other_update [of ?s ?pr s] id by simp
  from m f o assms(1) show ?thesis by simp
qed

theorem MergePR_frame_witness:
  "faults reassigned = [] \<and> find_pr reassigned ''pr-1024'' = Some (pr_1024 [''u3'', ''u9'']) \<and>
   Status (pr_1024 [''u3'', ''u9'']) = PRStatusOpen \<and>
   (\<exists>pr' stored s'. MergePR reassigned ''pr-1024'' 200500 = (Inr pr', s') \<and>
      find_pr s' ''pr-1024'' = Some stored \<and>
      Status pr' = PRStatusMerged \<and> MergedAt pr' = Some 200500 \<and>
      PullRequestID pr' = ''pr-1024'' \<and> PullRequestName pr' = ''Test PR'' \<and>
      AuthorID pr' = ''u1'' \<and> AssignedReviewers pr' = [''u3'', ''u9''] \<and>
      CreatedAt pr' = 100000 \<and>
      Status stored = PRStatusMerged \<and> MergedAt stored = Some 200000 \<and>
      PullRequestID stored = ''pr-1024'' \<and> PullRequestName stored = ''Test PR'' \<and>
      AuthorID stored = ''u1'' \<and> AssignedReviewers stored = [''u3'', ''u9''] \<and>
      CreatedAt stored = 100000 \<and> users s' = users reassigned \<and> faults s' = [] \<and>
      (\<forall>q. q \<noteq> ''pr-1024'' \<longrightarrow> find_pr s' q = find_pr reassigned q))"
proof -
  have h1: "faults reassigned = []" by (simp add: demo_defs reassigned_def)
  have h2: "find_pr reassigned ''pr-1024'' = Some (pr_1024 [''u3'', ''u9''])"
    by (simp add: demo_defs reassigned_def find_pr_def column_times_def microseconds_def)
  have h3: "Status (pr_1024 [''u3'', ''u9'']) = PRStatusOpen" by (simp add: pr_1024_def)
  have e: "microseconds 200500 = 200000" by (simp add: microseconds_def)
  from MergePR_frame [OF h1 h2 h3, of 200500] h1 h2 h3 show ?thesis
    by (simp add: pr_1024_def e)
qed

section \<open>ReassignReviewer: the rejections\<close>

text \<open>
  C6. With a working database, ReassignReviewer on a stored pull request whose status is
  MERGED fails with PRMerged, and on a stored OPEN pull request with an oldUserID that is
  not among its reviewers fails with NotAssigned; both return the storage as it was, so no
  field of the stored pull request is touched.
\<close>

theorem ReassignReviewer_rejects:
  assumes "faults s = []" and "find_pr s prID = Some pr"
  shows "(Status pr = PRStatusMerged \<longrightarrow>
            ReassignReviewer s prID oldUserID = (Inl ErrPRMerged, s)) \<and>
         (Status pr = PRStatusOpen \<longrightarrow> oldUserID \<notin> set (AssignedReviewers pr) \<longrightarrow>
            ReassignReviewer s prID oldUserID = (Inl ErrNotAssigned, s))"
  using assms
  by (simp add: ReassignReviewer_def PRRepo_GetByID_ok remove_reviewer_remove1
      PRStatusOpen_def PRStatusMerged_def)

theorem ReassignReviewer_rejects_witness:
  "faults merged = [] \<and> find_pr merged ''pr-1024'' = Some merged_1024 \<and>
   Status merged_1024 = PRStatusMerged \<and>
   ReassignReviewer merged ''pr-1024'' ''u3'' = (Inl ErrPRMerged, merged) \<and>
   faults opened = [] \<and> find_pr opened ''pr-1024'' = Some (pr_1024 [''u2'', ''u3'']) \<and>
   Status (pr_1024 [''u2'', ''u3'']) = PRStatusOpen \<and>
   ''u9'' \<notin> set (AssignedReviewers (pr_1024 [''u2'', ''u3''])) \<and>
   ReassignReviewer opened ''pr-1024'' ''u9'' = (Inl ErrNotAssigned, opened)"
proof -
  have m1: "faults merged = []" and m2: "find_pr merged ''pr-1024'' = Some merged_1024"
    and m3: "Status merged_1024 = PRStatusMerged"
    by (simp_all add: demo_defs merged_1024_def merged_def find_pr_def column_times_def
        microseconds_def)
  have o1: "faults opened = []"
    and o2: "find_pr opened ''pr-1024'' = Some (pr_1024 [''u2'', ''u3''])"
    and o3: "Status (pr_1024 [''u2'', ''u3'']) = PRStatusOpen"
    and o4: "''u9'' \<notin> set (AssignedReviewers (pr_1024 [''u2'', ''u3'']))"
    by (simp_all add: demo_defs opened_def find_pr_def column_times_def microseconds_def)
  from ReassignReviewer_rejects [OF m1 m2, of "''u3''"] m3
  have a: "ReassignReviewer merged ''pr-1024'' ''u3'' = (Inl ErrPRMerged, merged)" by simp
  from ReassignReviewer_rejects [OF o1 o2, of "''u9''"] o3 o4
  have b: "ReassignReviewer opened ''pr-1024'' ''u9'' = (Inl ErrNotAssigned, opened)" by simp
  from a b m1 m2 m3 o1 o2 o3 o4 show ?thesis by simp
qed

section \<open>CreatePR: the outcomes\<close>






section \<open>ReassignReviewer: the replacement\<close>



text \<open>
  C4. Let the pull request \<open>pr\<close> be stored under the id with distinct reviewers (the
  invariant of C5) and let its author exist. After a successful ReassignReviewer the old
  reviewer is no longer assigned; exactly one id is new, the returned \<open>r\<close>, and exactly the
  old one is gone; \<open>r\<close> is the id of an eligible member of the roster of the author's team
  (active, not the author, not assigned before, not the old reviewer); the record returned
  is the record stored. If the roster has no eligible member, the call (database working,
  pull request OPEN, old reviewer assigned) fails with NoCandidate and returns the storage
  as it was.
\<close>

theorem ReassignReviewer_replaces:
  assumes "find_pr s prID = Some pr" and "find_user s (AuthorID pr) = Some author"
  shows "(distinct (AssignedReviewers pr) \<longrightarrow>
          ReassignReviewer s prID oldUserID = (Inr (pr', r), s') \<longrightarrow>
            oldUserID \<notin> set (AssignedReviewers pr') \<and>
            set (AssignedReviewers pr') - set (AssignedReviewers pr) = {r} \<and>
            set (AssignedReviewers pr) - set (AssignedReviewers pr') = {oldUserID} \<and>
            AssignedReviewers pr' = remove1 oldUserID (AssignedReviewers pr) @ [r] \<and>
            (\<exists>m\<in>set (roster s (TeamName author)).
               UserID m = r \<and> eligible (AuthorID pr) (AssignedReviewers pr) oldUserID m) \<and>
            find_pr s' prID = Some pr') \<and>
         (faults s = [] \<longrightarrow> Status pr = PRStatusOpen \<longrightarrow>
          oldUserID \<in> set (AssignedReviewers pr) \<longrightarrow>
          (\<forall>m\<in>set (roster s (TeamName author)).
             \<not> eligible (AuthorID pr) (AssignedReviewers pr) oldUserID m) \<longrightarrow>
            ReassignReviewer s prID oldUserID = (Inl ErrNoCandidate, s))"
proof (intro conjI impI)
  assume d: "distinct (AssignedReviewers pr)"
    and ok: "ReassignReviewer s prID oldUserID = (Inr (pr', r), s')"
  from ReassignReviewer_Inr [OF ok] assms obtain m where
    mem: "oldUserID \<in> set (AssignedReviewers pr)" and
    m: "find (eligible (AuthorID pr) (AssignedReviewers pr) oldUserID)
          (roster s (TeamName author)) = Some m" and
    r: "r = UserID m" and
    pr': "pr' = pr\<lparr>AssignedReviewers := remove1 oldUserID (AssignedReviewers pr) @ [r]\<rparr>" and
    tab: "pull_requests s' = map (set_pr_row pr') (pull_requests s)"
    by auto
  from m have el: "eligible (AuthorID pr) (AssignedReviewers pr) oldUserID m"
    and inr: "m \<in> set (roster s (TeamName author))"
    by (auto simp: find_Some_iff)
  from el r have rn: "r \<notin> set (AssignedReviewers pr)" "r \<noteq> oldUserID"
    by (auto simp: eligible_def)
  show "AssignedReviewers pr' = remove1 oldUserID (AssignedReviewers pr) @ [r]"
    using pr' by simp
  show "oldUserID \<notin> set (AssignedReviewers pr')"
    using pr' d rn by simp
  show "set (AssignedReviewers pr') - set (AssignedReviewers pr) = {r}"
    using pr' d rn by auto
  show "set (AssignedReviewers pr) - set (AssignedReviewers pr') = {oldUserID}"
    using pr' d rn mem by auto
  show "\<exists>m\<in>set (roster s (TeamName author)).
          UserID m = r \<and> eligible (AuthorID pr) (AssignedReviewers pr) oldUserID m"
    using el inr r by blast
  have "set_pr_row pr' pr = pr'"
    by (rule set_pr_row_scanned [OF find_pr_column [OF assms(1)]]) (simp_all add: pr')
  with find_pr_after_update [OF assms(1) tab] show "find_pr s' prID = Some pr'" by simp
next
  assume a: "faults s = []" "Status pr = PRStatusOpen" "oldUserID \<in> set (AssignedReviewers pr)"
    "\<forall>m\<in>set (roster s (TeamName author)).
       \<not> eligible (AuthorID pr) (AssignedReviewers pr) oldUserID m"
  from a(4) have "find (eligible (AuthorID pr) (AssignedReviewers pr) oldUserID)
      (roster s (TeamName author)) = None"
    by (simp add: find_None_iff)
  then have "pick_replacement (AuthorID pr) (remove1 oldUserID (AssignedReviewers pr)) oldUserID
      (roster s (TeamName author)) = []"
    by (simp add: pick_replacement_find eligible_remove1_fun)
  with a(1,2,3) assms show "ReassignReviewer s prID oldUserID = (Inl ErrNoCandidate, s)"
    by (simp add: ReassignReviewer_def PRRepo_GetByID_ok UserRepo_GetByID_ok
        UserRepo_ListByTeam_ok remove_reviewer_remove1 PRStatusOpen_def PRStatusMerged_def)
qed

theorem ReassignReviewer_replaces_witness:
  "find_pr opened ''pr-1024'' = Some (pr_1024 [''u2'', ''u3'']) \<and>
   find_user opened ''u1'' = Some (member ''u1'' ''Alice'' True) \<and>
   distinct [''u2'', ''u3''] \<and>
   ReassignReviewer opened ''pr-1024'' ''u2'' = (Inr (pr_1024 [''u3'', ''u9''], ''u9''), reassigned) \<and>
   ''u2'' \<notin> set (AssignedReviewers (pr_1024 [''u3'', ''u9''])) \<and>
   set (AssignedReviewers (pr_1024 [''u3'', ''u9''])) - set [''u2'', ''u3''] = {''u9''} \<and>
   (\<exists>m\<in>set (roster opened ''backend4'').
      UserID m = ''u9'' \<and> eligible ''u1'' [''u2'', ''u3''] ''u2'' m) \<and>
   find_pr reassigned ''pr-1024'' = Some (pr_1024 [''u3'', ''u9'']) \<and>
   faults pair_team = [] \<and> find_pr pair_team ''pr-1024'' = Some (pr_1024 [''u2'']) \<and>
   find_user pair_team ''u1'' = Some (member ''u1'' ''Alice'' True) \<and>
   filter (eligible ''u1'' [''u2''] ''u2'') (roster pair_team ''backend4'') = [] \<and>
   ReassignReviewer pair_team ''pr-1024'' ''u2'' = (Inl ErrNoCandidate, pair_team)"
proof -
  have a1: "find_pr opened ''pr-1024'' = Some (pr_1024 [''u2'', ''u3''])"
    by (simp add: demo_defs opened_def find_pr_def column_times_def microseconds_def)
  have a2: "find_user opened (AuthorID (pr_1024 [''u2'', ''u3''])) = Some (member ''u1'' ''Alice'' True)"
    by (simp add: demo_defs opened_def find_user_def)
  have a3: "distinct (AssignedReviewers (pr_1024 [''u2'', ''u3'']))" by (simp add: pr_1024_def)
  have a4: "ReassignReviewer opened ''pr-1024'' ''u2'' = (Inr (pr_1024 [''u3'', ''u9''], ''u9''), reassigned)"
    by (simp add: ReassignReviewer_def demo_defs opened_def reassigned_def repo_defs)
  have b0: "faults pair_team = []" by (simp add: pair_team_def)
  have b1: "find_pr pair_team ''pr-1024'' = Some (pr_1024 [''u2''])"
    by (simp add: pair_team_def pr_1024_def find_pr_def column_times_def microseconds_def)
  have b2: "find_user pair_team (AuthorID (pr_1024 [''u2''])) = Some (member ''u1'' ''Alice'' True)"
    by (simp add: pair_team_def pr_1024_def member_def find_user_def)
  have b3: "Status (pr_1024 [''u2'']) = PRStatusOpen" "''u2'' \<in> set (AssignedReviewers (pr_1024 [''u2'']))"
    by (simp_all add: pr_1024_def)
  have b4: "filter (eligible ''u1'' [''u2''] ''u2'') (roster pair_team ''backend4'') = []"
    by (simp add: pair_team_def member_def roster_def eligible_def)
  then have b5: "\<forall>m\<in>set (roster pair_team (TeamName (member ''u1'' ''Alice'' True))).
      \<not> eligible (AuthorID (pr_1024 [''u2''])) (AssignedReviewers (pr_1024 [''u2''])) ''u2'' m"
    by (simp add: filter_empty_conv pr_1024_def member_def)
  from ReassignReviewer_replaces [OF a1 a2, of "''u2''" "pr_1024 [''u3'', ''u9'']" "''u9''" reassigned]
    a3 a4
  have c1: "''u2'' \<notin> set (AssignedReviewers (pr_1024 [''u3'', ''u9''])) \<and>
   set (AssignedReviewers (pr_1024 [''u3'', ''u9''])) - set [''u2'', ''u3''] = {''u9''} \<and>
   (\<exists>m\<in>set (roster opened ''backend4'').
      UserID m = ''u9'' \<and> eligible ''u1'' [''u2'', ''u3''] ''u2'' m) \<and>
   find_pr reassigned ''pr-1024'' = Some (pr_1024 [''u3'', ''u9''])"
    by (simp add: pr_1024_def member_def)
  from ReassignReviewer_replaces [OF b1 b2, of "''u2''"] b0 b3 b5
  have c2: "ReassignReviewer pair_team ''pr-1024'' ''u2'' = (Inl ErrNoCandidate, pair_team)"
    by blast
  from a1 a2 a3 a4 b0 b1 b2 b4 c1 c2 show ?thesis by (simp add: pr_1024_def)
qed

section \<open>The order of the selection\<close>






section \<open>The invariant of the reviewers\<close>

lemma UserID_set_user_row: "UserID (set_user_row u r) = UserID r"
  by (simp add: set_user_row_def)

lemma UserRepo_Update_keys:
  assumes "UserRepo_Update s u = (e, s')"
  shows "map UserID (users s') = map UserID (users s) \<and> pull_requests s' = pull_requests s"
proof -
  obtain f s1 where rt: "round_trip s = (f, s1)" by (cases "round_trip s")
  have "map (UserID \<circ> set_user_row u) rows = map UserID rows" for rows
    by (induction rows) (simp_all add: UserID_set_user_row)
  with round_trip_tables [OF rt] assms rt show ?thesis
    by (auto simp: UserRepo_Update_def split: if_splits)
qed

lemma deactivate_loop_keys:
  "deactivate_loop s us = (e, s') \<Longrightarrow>
   map UserID (users s') = map UserID (users s) \<and> pull_requests s' = pull_requests s"
proof (induction us arbitrary: s)
  case Nil
  then show ?case by simp
next
  case (Cons u us)
  obtain e1 s1 where up: "UserRepo_Update s (u\<lparr>IsActive := False\<rparr>) = (e1, s1)"
    by (cases "UserRepo_Update s (u\<lparr>IsActive := False\<rparr>)")
  note k = UserRepo_Update_keys [OF up]
  show ?case
  proof (cases e1)
    case None
    with Cons.prems up have "deactivate_loop s1 us = (e, s')" by simp
    from Cons.IH [OF this] k show ?thesis by simp
  next
    case (Some a)
    with Cons.prems up k show ?thesis by simp
  qed
qed

lemma DeactivateTeam_keys:
  assumes "DeactivateTeam s team = (e, s')"
  shows "map UserID (users s') = map UserID (users s) \<and> pull_requests s' = pull_requests s"
proof -
  obtain x s1 where l: "UserRepo_ListByTeam s team = (x, s1)"
    by (cases "UserRepo_ListByTeam s team")
  note t = UserRepo_ListByTeam_tables [OF l]
  show ?thesis
  proof (cases x)
    case (Inl a)
    with assms l t show ?thesis by (simp add: DeactivateTeam_def)
  next
    case (Inr us)
    with assms l have "deactivate_loop s1 us = (e, s')" by (simp add: DeactivateTeam_def)
    from deactivate_loop_keys [OF this] t show ?thesis by simp
  qed
qed

lemma reviewers_ok_column_times: "reviewers_ok (column_times pr) = reviewers_ok pr"
  by (simp add: reviewers_ok_def column_times_fields)

lemma reviewers_ok_set_pr_row:
  "reviewers_ok pr \<Longrightarrow> reviewers_ok r \<Longrightarrow> reviewers_ok (set_pr_row pr r)"
  by (simp add: reviewers_ok_def set_pr_row_def)

lemma reviewers_ok_new_pr:
  assumes "distinct (map UserID ms)"
  shows "reviewers_ok (new_pr ms prID prName authorID now)"
proof -
  let ?cs = "filter (candidate authorID) ms"
  from assms have "distinct (map UserID ?cs)" by (rule distinct_map_filter)
  then have "distinct (take 2 (map UserID ?cs))" by (rule distinct_take)
  moreover have "authorID \<notin> set (map UserID ?cs)" by (auto simp: candidate_def)
  then have "authorID \<notin> set (take 2 (map UserID ?cs))" by (auto dest: in_set_takeD)
  ultimately show ?thesis by (simp add: reviewers_ok_def new_pr_def)
qed

lemma distinct_roster_part:
  "user_keys s \<Longrightarrow> distinct (map UserID (take n (roster s team)))"
  by (simp add: user_keys_def roster_def distinct_map_filter take_map [symmetric])

lemma inv_CreatePR:
  assumes "storage_ok s" and "CreatePR s prID prName authorID now = (x, s')"
  shows "storage_ok s'"
proof (cases x)
  case (Inl e)
  with CreatePR_Inl [of s prID prName authorID now e s'] assms show ?thesis
    by (simp add: storage_ok_def user_keys_def)
next
  case (Inr pr)
  with assms(2) have c: "CreatePR s prID prName authorID now = (Inr pr, s')" by simp
  from CreatePR_Inr [OF c]
  obtain author :: User and n where
    "pr = new_pr (take n (roster s (TeamName author))) prID prName authorID now"
    "users s' = users s" "pull_requests s' = pull_requests s @ [column_times pr]"
    by blast
  with assms(1) reviewers_ok_new_pr [OF distinct_roster_part, of s n "TeamName author"
      prID prName authorID now]
  show ?thesis by (simp add: storage_ok_def user_keys_def reviewers_ok_column_times)
qed

lemma inv_update:
  assumes "storage_ok s" and "reviewers_ok pr" and "users s' = users s"
    and "pull_requests s' = map (set_pr_row pr) (pull_requests s)"
  shows "storage_ok s'"
  using assms by (auto simp: storage_ok_def user_keys_def list_all_iff intro: reviewers_ok_set_pr_row)

lemma find_pr_reviewers_ok:
  assumes "storage_ok s" and "find_pr s pid = Some pr"
  shows "reviewers_ok pr"
proof -
  from find_pr_row [OF assms(2)] obtain row where
    "row \<in> set (pull_requests s)" "pr = column_times row" by blast
  with assms(1) show ?thesis
    by (simp add: storage_ok_def list_all_iff reviewers_ok_column_times)
qed

lemma inv_MergePR:
  assumes "storage_ok s" and "MergePR s prID now = (x, s')"
  shows "storage_ok s'"
proof (cases x)
  case (Inl e)
  with MergePR_Inl [of s prID now e s'] assms show ?thesis
    by (simp add: storage_ok_def user_keys_def)
next
  case (Inr pr)
  with MergePR_Inr [of s prID now pr s'] assms(2)
  have u: "users s' = users s" and
    d: "pull_requests s' = pull_requests s \<or>
     (\<exists>p0. find_pr s prID = Some p0 \<and> pr = p0\<lparr>Status := PRStatusMerged, MergedAt := Some now\<rparr> \<and>
        pull_requests s' = map (set_pr_row pr) (pull_requests s))"
    by auto
  from d show ?thesis
  proof
    assume "pull_requests s' = pull_requests s"
    with u assms(1) show ?thesis by (simp add: storage_ok_def user_keys_def)
  next
    assume "\<exists>p0. find_pr s prID = Some p0 \<and>
        pr = p0\<lparr>Status := PRStatusMerged, MergedAt := Some now\<rparr> \<and>
        pull_requests s' = map (set_pr_row pr) (pull_requests s)"
    then obtain p0 where p0: "find_pr s prID = Some p0"
      "pr = p0\<lparr>Status := PRStatusMerged, MergedAt := Some now\<rparr>"
      "pull_requests s' = map (set_pr_row pr) (pull_requests s)" by blast
    from find_pr_reviewers_ok [OF assms(1) p0(1)] p0(2) have "reviewers_ok pr"
      by (simp add: reviewers_ok_def)
    from inv_update [OF assms(1) this u p0(3)] show ?thesis .
  qed
qed

lemma inv_ReassignReviewer:
  assumes "storage_ok s" and "ReassignReviewer s prID old = (x, s')"
  shows "storage_ok s'"
proof (cases x)
  case (Inl e)
  with ReassignReviewer_Inl [of s prID old e s'] assms show ?thesis
    by (simp add: storage_ok_def user_keys_def)
next
  case (Inr y)
  obtain pr' r where y: "y = (pr', r)" by (cases y)
  from assms(2) Inr y have c: "ReassignReviewer s prID old = (Inr (pr', r), s')" by simp
  from ReassignReviewer_Inr [OF c]
  obtain pr and author :: User and m where
    f: "find_pr s prID = Some pr" and
    m: "find (eligible (AuthorID pr) (AssignedReviewers pr) old) (roster s (TeamName author)) = Some m"
    and r: "r = UserID m"
    and pr': "pr' = pr\<lparr>AssignedReviewers := remove1 old (AssignedReviewers pr) @ [r]\<rparr>"
    and u: "users s' = users s"
    and t: "pull_requests s' = map (set_pr_row pr') (pull_requests s)"
    by blast
  from m r have el: "\<exists>m. eligible (AuthorID pr) (AssignedReviewers pr) old m \<and> r = UserID m"
    by (auto simp: find_Some_iff)
  note ok = find_pr_reviewers_ok [OF assms(1) f]
  from el have "r \<noteq> AuthorID pr" "r \<notin> set (AssignedReviewers pr)"
    by (auto simp: eligible_def)
  with ok pr' have "reviewers_ok pr'"
    by (auto simp: reviewers_ok_def dest: notin_set_remove1)
  from inv_update [OF assms(1) this u t] show ?thesis .
qed

lemma inv_DeactivateTeam:
  assumes "storage_ok s" and "DeactivateTeam s team = (e, s')"
  shows "storage_ok s'"
  using DeactivateTeam_keys [OF assms(2)] assms(1) by (simp add: storage_ok_def user_keys_def)

lemma storage_ok_serve: "storage_ok s \<Longrightarrow> storage_ok (serve s r)"
proof (cases r)
  case (CreateRequest prID prName authorID now)
  then show "storage_ok s \<Longrightarrow> ?thesis"
    by (auto intro: inv_CreatePR [OF _ surjective_pairing])
next
  case (MergeRequest prID now)
  then show "storage_ok s \<Longrightarrow> ?thesis"
    by (auto intro: inv_MergePR [OF _ surjective_pairing])
next
  case (ReassignRequest prID oldUserID)
  then show "storage_ok s \<Longrightarrow> ?thesis"
    by (auto intro: inv_ReassignReviewer [OF _ surjective_pairing])
next
  case (DeactivateRequest teamName)
  then show "storage_ok s \<Longrightarrow> ?thesis"
    by (auto intro: inv_DeactivateTeam [OF _ surjective_pairing])
next
  case (Outside us fs)
  then show "storage_ok s \<Longrightarrow> ?thesis"
    by (simp add: storage_ok_def user_keys_def)
qed

lemma storage_ok_serve_all: "storage_ok s \<Longrightarrow> storage_ok (serve_all s requests)"
  unfolding serve_all_def
  by (induction requests arbitrary: s) (simp_all add: storage_ok_serve)

text \<open>
  C5. Start from a database without pull requests (user\_id the primary key of users) and
  serve any history of requests to CreatePR, MergePR, ReassignReviewer and DeactivateTeam,
  under any faults and with any changes of the users from outside: no pull request stored
  at the end has its author among its assigned reviewers, and none has a reviewer twice.
\<close>

theorem reviewers_invariant:
  assumes "pull_requests s = []" and "user_keys s"
    and "p \<in> set (pull_requests (serve_all s requests))"
  shows "AuthorID p \<notin> set (AssignedReviewers p) \<and> distinct (AssignedReviewers p)"
proof -
  from assms(1,2) have "storage_ok s" by (simp add: storage_ok_def)
  from storage_ok_serve_all [OF this, of requests] assms(3) show ?thesis
    by (simp add: storage_ok_def list_all_iff reviewers_ok_def)
qed

theorem reviewers_invariant_witness:
  "pull_requests backend4 = [] \<and> user_keys backend4 \<and>
   serve_all backend4 [CreateRequest ''pr-1024'' ''Test PR'' ''u1'' 100000,
                       ReassignRequest ''pr-1024'' ''u2''] = reassigned \<and>
   pr_1024 [''u3'', ''u9''] \<in> set (pull_requests reassigned) \<and>
   AuthorID (pr_1024 [''u3'', ''u9'']) \<notin> set (AssignedReviewers (pr_1024 [''u3'', ''u9''])) \<and>
   distinct (AssignedReviewers (pr_1024 [''u3'', ''u9'']))"
proof -
  have a: "pull_requests backend4 = []" "user_keys backend4"
    by (simp_all add: demo_defs user_keys_def)
  have c: "CreatePR backend4 ''pr-1024'' ''Test PR'' ''u1'' 100000 =
      (Inr (pr_1024 [''u2'', ''u3'']), opened)"
    by (simp add: CreatePR_def demo_defs opened_def repo_defs)
  have r: "ReassignReviewer opened ''pr-1024'' ''u2'' =
      (Inr (pr_1024 [''u3'', ''u9''], ''u9''), reassigned)"
    by (simp add: ReassignReviewer_def demo_defs opened_def reassigned_def repo_defs)
  have h: "serve_all backend4 [CreateRequest ''pr-1024'' ''Test PR'' ''u1'' 100000,
                       ReassignRequest ''pr-1024'' ''u2''] = reassigned"
    by (simp add: serve_all_def c r)
  have m: "pr_1024 [''u3'', ''u9''] \<in> set (pull_requests reassigned)"
    by (simp add: demo_defs reassigned_def)
  from reviewers_invariant [OF a, of "pr_1024 [''u3'', ''u9'']"
      "[CreateRequest ''pr-1024'' ''Test PR'' ''u1'' 100000, ReassignRequest ''pr-1024'' ''u2'']"]
    a h m show ?thesis by simp
qed

section \<open>CreatePR: the reviewers\<close>




section \<open>float64: the rounding\<close>

lemma round_half_even_near: "\<bar>of_int (round_half_even y) - y\<bar> \<le> 1 / 2"
proof -
  define n where "n = \<lfloor>y\<rfloor>"
  have b: "of_int n \<le> y" "y < of_int n + 1" unfolding n_def by linarith+
  show ?thesis
    unfolding round_half_even_def Let_def n_def [symmetric]
    using b by (auto simp: abs_if)
qed

lemma round_half_even_int: "round_half_even (of_int n) = n"
  by (simp add: round_half_even_def)

lemma ratio_bounds:
  fixes p q :: int
  assumes "0 < p" "0 < q"
  shows "(2::rat) powi (bitlen p - bitlen q - 1) < of_int p / of_int q"
    and "of_int p / of_int q < (2::rat) powi (bitlen p - bitlen q + 1)"
proof -
  from bitlen_bounds [OF assms(1)] have p: "(2::int) ^ nat (bitlen p - 1) \<le> p" "p < 2 ^ nat (bitlen p)" by auto
  from bitlen_bounds [OF assms(2)] have q: "(2::int) ^ nat (bitlen q - 1) \<le> q" "q < 2 ^ nat (bitlen q)" by auto
  have bp: "1 \<le> bitlen p" and bq: "1 \<le> bitlen q"
    using assms bitlen_eq_zero_iff [of p] bitlen_eq_zero_iff [of q] bitlen_nonneg [of p] bitlen_nonneg [of q]
    by linarith+
  have P1: "(2::rat) powi (bitlen p - 1) \<le> of_int p"
  proof -
    have "(of_int ((2::int) ^ nat (bitlen p - 1)) :: rat) \<le> of_int p" using p(1) by (simp only: of_int_le_iff)
    then show ?thesis using bp by (simp add: power_int_def)
  qed
  have P2: "(of_int p :: rat) < 2 powi (bitlen p)"
  proof -
    have "(of_int p :: rat) < of_int ((2::int) ^ nat (bitlen p))" using p(2) by (simp only: of_int_less_iff)
    then show ?thesis using bp by (simp add: power_int_def)
  qed
  have Q1: "(2::rat) powi (bitlen q - 1) \<le> of_int q"
  proof -
    have "(of_int ((2::int) ^ nat (bitlen q - 1)) :: rat) \<le> of_int q" using q(1) by (simp only: of_int_le_iff)
    then show ?thesis using bq by (simp add: power_int_def)
  qed
  have Q2: "(of_int q :: rat) < 2 powi (bitlen q)"
  proof -
    have "(of_int q :: rat) < of_int ((2::int) ^ nat (bitlen q))" using q(2) by (simp only: of_int_less_iff)
    then show ?thesis using bq by (simp add: power_int_def)
  qed
  have qpos: "0 < (of_int q :: rat)" using assms(2) by simp
  have ppos: "0 < (of_int p :: rat)" using assms(1) by simp
  have "(2::rat) powi (bitlen p - bitlen q - 1) * of_int q < 2 powi (bitlen p - bitlen q - 1) * 2 powi (bitlen q)"
    using Q2 by (simp add: mult_less_cancel_left_pos)
  also have "\<dots> = 2 powi (bitlen p - 1)"
    by (simp add: power_int_add [symmetric])
  also have "\<dots> \<le> of_int p" by (rule P1)
  finally show "(2::rat) powi (bitlen p - bitlen q - 1) < of_int p / of_int q"
    using qpos by (simp add: pos_less_divide_eq)
  have "(of_int p :: rat) < 2 powi (bitlen p)" by (rule P2)
  also have "\<dots> = 2 powi (bitlen p - bitlen q + 1) * 2 powi (bitlen q - 1)"
    by (simp add: power_int_add [symmetric])
  also have "\<dots> \<le> 2 powi (bitlen p - bitlen q + 1) * of_int q"
    using Q1 by (simp add: mult_le_cancel_left_pos)
  finally show "of_int p / of_int q < (2::rat) powi (bitlen p - bitlen q + 1)"
    using qpos by (simp add: pos_divide_less_eq)
qed

lemma exponent_bounds:
  assumes "0 < x"
  shows "2 powi (exponent x) \<le> x" and "x < 2 powi (exponent x + 1)"
proof -
  obtain p q where pq: "quotient_of x = (p, q)" by (cases "quotient_of x")
  then have q: "0 < q" and x: "x = of_int p / of_int q"
    using quotient_of_denom_pos [OF pq] quotient_of_div [OF pq] by auto
  with assms have p: "0 < p" by (simp add: zero_less_divide_iff)
  note rb = ratio_bounds [OF p q, folded x]
  show "2 powi (exponent x) \<le> x"
    using rb(1) by (auto simp: exponent_def pq Let_def)
  show "x < 2 powi (exponent x + 1)"
    using rb(2) by (auto simp: exponent_def pq Let_def not_le)
qed

lemma float64_error:
  assumes "0 < x"
  shows "\<bar>float64 x - x\<bar> \<le> x / 2 ^ 53"
proof -
  let ?e = "exponent x"
  let ?m = "x * 2 powi (52 - ?e)"
  have u: "(2::rat) powi (52 - ?e) * 2 powi (?e - 52) = 1"
    by (simp add: power_int_add [symmetric])
  have "float64 x - x = (of_int (round_half_even ?m) - ?m) * 2 powi (?e - 52)"
    using assms u by (simp add: float64_def algebra_simps)
  then have "\<bar>float64 x - x\<bar> = \<bar>of_int (round_half_even ?m) - ?m\<bar> * 2 powi (?e - 52)"
    by (simp add: abs_mult)
  also have "\<dots> \<le> 1 / 2 * 2 powi (?e - 52)"
    using round_half_even_near [of ?m] by (simp add: mult_right_mono)
  also have "\<dots> = 2 powi ?e / 2 ^ 53"
    by (simp add: power_int_diff)
  also have "\<dots> \<le> x / 2 ^ 53"
    using exponent_bounds(1) [OF assms] by (simp add: divide_right_mono)
  finally show ?thesis .
qed

lemma float64_of_nat:
  assumes "n < 2 ^ 53"
  shows "float64 (of_nat n) = of_nat n"
proof (cases "n = 0")
  case True
  then show ?thesis by (simp add: float64_def)
next
  case False
  let ?x = "of_nat n :: rat"
  let ?e = "exponent ?x"
  from False have pos: "0 < ?x" by simp
  have "2 powi ?e \<le> ?x" by (rule exponent_bounds(1) [OF pos])
  also have "?x < 2 ^ 53" using assms by (metis of_nat_less_iff of_nat_numeral of_nat_power)
  finally have "(2::rat) powi ?e < 2 powi 53" by simp
  then have e: "?e < 53" by (rule power_int_le_imp_less_exp [rotated]) simp_all
  then have "?x * 2 powi (52 - ?e) = of_int (int n * 2 ^ nat (52 - ?e))"
    by (simp add: power_int_def)
  then have "round_half_even (?x * 2 powi (52 - ?e)) = int n * 2 ^ nat (52 - ?e)"
    by (simp only: round_half_even_int)
  moreover have "(of_int (2 ^ nat (52 - ?e)) :: rat) * 2 powi (?e - 52) = 1"
    using e by (simp add: power_int_def field_simps)
  ultimately show ?thesis using pos by (simp add: float64_def mult.assoc)
qed

lemma float64_zero: "float64 0 = 0"
  by (simp add: float64_def)

text \<open>One third is not a binary64 number; three halves is one.\<close>

lemma float64_third: "float64 (float64 1 / float64 3) = 6004799503160661 / 18014398509481984"
  by code_simp

lemma float64_three_halves: "float64 (3 / 2) = 3 / 2"
  by code_simp

section \<open>GetStats\<close>

lemma pr_loop_counts:
  "pr_loop prs (opn, mrg, tot) =
     (opn + length (filter (\<lambda>p. Status p = PRStatusOpen) prs),
      mrg + length (filter (\<lambda>p. Status p = PRStatusMerged) prs),
      tot + sum_list (map (\<lambda>p. length (AssignedReviewers p)) prs))"
  by (induction prs arbitrary: opn mrg tot)
    (auto simp: PRStatusOpen_def PRStatusMerged_def)

lemma user_loop_count: "user_loop us n = n + length (filter IsActive us)"
  by (induction us arbitrary: n) auto

lemma sum_list_sort_key:
  fixes g :: "'a \<Rightarrow> nat" and f :: "'a \<Rightarrow> 'k::linorder"
  shows "sum_list (map g (sort_key f xs)) = sum_list (map g xs)"
proof -
  have "mset (map g (sort_key f xs)) = mset (map g xs)" by simp
  then show ?thesis by (metis sum_mset_sum_list)
qed

lemma length_filter_sort_key:
  fixes f :: "'a \<Rightarrow> 'k::linorder"
  shows "length (filter P (sort_key f xs)) = length (filter P xs)"
  by (simp add: filter_sort)

text \<open>The rows PRRepo.ListAll scans, in its order, count as the rows of the table do.\<close>

lemma scanned_counts:
  fixes f :: "PullRequest \<Rightarrow> int"
  shows "length (sort_key f (map column_times prs)) = length prs"
    and "length (filter (\<lambda>p. Status p = st) (sort_key f (map column_times prs))) =
         length (filter (\<lambda>p. Status p = st) prs)"
    and "sum_list (map (\<lambda>p. length (AssignedReviewers p)) (sort_key f (map column_times prs))) =
         sum_list (map (\<lambda>p. length (AssignedReviewers p)) prs)"
proof -
  show "length (sort_key f (map column_times prs)) = length prs" by simp
  have "length (filter (\<lambda>p. Status p = st) (map column_times prs)) =
        length (filter (\<lambda>p. Status p = st) prs)"
    by (simp add: filter_map comp_def column_times_fields)
  then show "length (filter (\<lambda>p. Status p = st) (sort_key f (map column_times prs))) =
         length (filter (\<lambda>p. Status p = st) prs)"
    by (simp only: length_filter_sort_key)
  have "map (\<lambda>p. length (AssignedReviewers p)) (map column_times prs) =
        map (\<lambda>p. length (AssignedReviewers p)) prs"
    by (simp add: comp_def column_times_fields)
  then show "sum_list (map (\<lambda>p. length (AssignedReviewers p))
      (sort_key f (map column_times prs))) =
         sum_list (map (\<lambda>p. length (AssignedReviewers p)) prs)"
    by (simp only: sum_list_sort_key)
qed

lemma PRRepo_ListAll_tables:
  "PRRepo_ListAll s = (x, s') \<Longrightarrow> users s' = users s \<and> pull_requests s' = pull_requests s"
  by (auto simp: PRRepo_ListAll_def split: prod.splits dest: round_trip_tables)

lemma UserRepo_ListAll_tables:
  "UserRepo_ListAll s = (x, s') \<Longrightarrow> users s' = users s \<and> pull_requests s' = pull_requests s"
  by (auto simp: UserRepo_ListAll_def split: prod.splits dest: round_trip_tables)

lemma GetStats_tables:
  "users (snd (GetStats s)) = users s \<and> pull_requests (snd (GetStats s)) = pull_requests s"
proof -
  obtain x s1 where a: "PRRepo_ListAll s = (x, s1)" by (cases "PRRepo_ListAll s")
  obtain y s2 where b: "UserRepo_ListAll s1 = (y, s2)" by (cases "UserRepo_ListAll s1")
  note t1 = PRRepo_ListAll_tables [OF a] and t2 = UserRepo_ListAll_tables [OF b]
  from a b t1 t2 show ?thesis
    by (cases x; cases y) (auto simp: GetStats_def split: prod.splits)
qed

text \<open>GetStats with a working database: the counts of the specification, and the average
  of the code, the float64 quotient of the two counters converted to float64.\<close>

lemma GetStats_ok:
  assumes "faults s = []"
  shows "GetStats s =
    (Inr ((spec_stats (pull_requests s) (users s))
       \<lparr>average_reviewers :=
          (if pull_requests s = [] then 0
           else float64
             (float64 (of_nat (sum_list (map (\<lambda>p. length (AssignedReviewers p))
                  (pull_requests s)))) /
              float64 (of_nat (length (pull_requests s)))))\<rparr>), s)"
  using assms
  by (simp add: GetStats_def PRRepo_ListAll_def UserRepo_ListAll_def round_trip_ok
      pr_loop_counts user_loop_count spec_stats_def scanned_counts)

text \<open>
  C7, as stated, fails in the average: GetStats computes it as
  \<open>float64(totalReviewers) / float64(len(prs))\<close>, a float64 division, which rounds. In
  \<open>three_prs\<close> there are three pull requests with one reviewer in all; the exact average
  is 1/3, and GetStats returns the binary64 number nearest to it,
  6004799503160661 / 2^54, which is smaller.
\<close>

theorem GetStats_average_counterexample:
  "GetStats three_prs =
     (Inr \<lparr>total_prs = 3, total_users = 4, open_prs = 3, merged_prs = 0, active_users = 4,
           average_reviewers = 6004799503160661 / 18014398509481984\<rparr>, three_prs) \<and>
   sum_list (map (\<lambda>p. length (AssignedReviewers p)) (pull_requests three_prs)) = 1 \<and>
   length (pull_requests three_prs) = 3 \<and>
   average_reviewers (spec_stats (pull_requests three_prs) (users three_prs)) = 1 / 3 \<and>
   (6004799503160661 / 18014398509481984 :: rat) < 1 / 3"
proof -
  have f: "faults three_prs = []" by (simp add: three_prs_def demo_defs)
  have "GetStats three_prs =
     (Inr \<lparr>total_prs = 3, total_users = 4, open_prs = 3, merged_prs = 0, active_users = 4,
           average_reviewers = float64 (float64 1 / float64 3)\<rparr>, three_prs)"
    unfolding GetStats_ok [OF f]
    by (simp add: spec_stats_def three_prs_def pr_1025_def demo_defs)
  then show ?thesis
    by (simp add: float64_third spec_stats_def three_prs_def pr_1025_def demo_defs)
qed

text \<open>
  C7, amended. GetStats writes nothing: under every fault script both tables are as they
  were. With a working database it returns the numbers of pull requests, of users, of
  OPEN and of MERGED pull requests and of active users as the specification has them, and
  an average that is 0 (and no error) when there is no pull request. The average is not
  the exact quotient but, the two counters being below 2^53, the float64 nearest to the
  sum of the numbers of assigned reviewers divided by the number of pull requests: it
  differs from the exact average by at most the exact average divided by 2^53.
\<close>

theorem GetStats_aggregates:
  "users (snd (GetStats s)) = users s \<and> pull_requests (snd (GetStats s)) = pull_requests s \<and>
   (faults s = [] \<longrightarrow>
      (\<exists>avg. GetStats s =
           (Inr ((spec_stats (pull_requests s) (users s))\<lparr>average_reviewers := avg\<rparr>), s) \<and>
         (pull_requests s = [] \<longrightarrow> avg = 0) \<and>
         (sum_list (map (\<lambda>p. length (AssignedReviewers p)) (pull_requests s)) < 2 ^ 53 \<longrightarrow>
          length (pull_requests s) < 2 ^ 53 \<longrightarrow>
            avg = float64 (average_reviewers (spec_stats (pull_requests s) (users s))) \<and>
            \<bar>avg - average_reviewers (spec_stats (pull_requests s) (users s))\<bar> \<le>
              average_reviewers (spec_stats (pull_requests s) (users s)) / 2 ^ 53)))"
proof (intro conjI impI)
  show "users (snd (GetStats s)) = users s" "pull_requests (snd (GetStats s)) = pull_requests s"
    using GetStats_tables [of s] by simp_all
next
  assume f: "faults s = []"
  let ?t = "sum_list (map (\<lambda>p. length (AssignedReviewers p)) (pull_requests s))"
  let ?l = "length (pull_requests s)"
  let ?exact = "average_reviewers (spec_stats (pull_requests s) (users s))"
  let ?avg = "if pull_requests s = [] then 0
      else float64 (float64 (of_nat ?t) / float64 (of_nat ?l))"
  have a: "pull_requests s = [] \<longrightarrow> ?avg = 0" by simp
  have b: "?avg = float64 ?exact \<and> \<bar>?avg - ?exact\<bar> \<le> ?exact / 2 ^ 53"
    if t: "?t < 2 ^ 53" and l: "?l < 2 ^ 53"
  proof -
    have e: "?avg = float64 ?exact"
      by (simp add: spec_stats_def float64_zero float64_of_nat [OF t] float64_of_nat [OF l])
    have n: "0 \<le> ?exact" by (simp add: spec_stats_def)
    have "\<bar>float64 ?exact - ?exact\<bar> \<le> ?exact / 2 ^ 53"
    proof (cases "?exact = 0")
      case True
      then show ?thesis by (simp add: float64_zero)
    next
      case False
      with n have "0 < ?exact" by simp
      then show ?thesis by (rule float64_error)
    qed
    with e show ?thesis by simp
  qed
  from GetStats_ok [OF f] a b
  show "\<exists>avg. GetStats s =
           (Inr ((spec_stats (pull_requests s) (users s))\<lparr>average_reviewers := avg\<rparr>), s) \<and>
         (pull_requests s = [] \<longrightarrow> avg = 0) \<and>
         (?t < 2 ^ 53 \<longrightarrow> ?l < 2 ^ 53 \<longrightarrow>
            avg = float64 ?exact \<and> \<bar>avg - ?exact\<bar> \<le> ?exact / 2 ^ 53)"
    by blast
qed

theorem GetStats_aggregates_witness:
  "faults two_prs = [] \<and>
   sum_list (map (\<lambda>p. length (AssignedReviewers p)) (pull_requests two_prs)) < 2 ^ 53 \<and>
   length (pull_requests two_prs) < 2 ^ 53 \<and>
   GetStats two_prs =
     (Inr \<lparr>total_prs = 2, total_users = 4, open_prs = 1, merged_prs = 1, active_users = 2,
           average_reviewers = 3 / 2\<rparr>, two_prs) \<and>
   faults backend4 = [] \<and> pull_requests backend4 = [] \<and>
   GetStats backend4 =
     (Inr \<lparr>total_prs = 0, total_users = 4, open_prs = 0, merged_prs = 0, active_users = 4,
           average_reviewers = 0\<rparr>, backend4)"
proof -
  have a: "faults two_prs = []"
    "sum_list (map (\<lambda>p. length (AssignedReviewers p)) (pull_requests two_prs)) < 2 ^ 53"
    "length (pull_requests two_prs) < 2 ^ 53"
    by (simp_all add: demo_defs two_prs_def partly_inactive_def merged_1024_def pr_1025_def)
  have b: "faults backend4 = []" "pull_requests backend4 = []"
    by (simp_all add: demo_defs)
  have e1: "spec_stats (pull_requests two_prs) (users two_prs) =
     \<lparr>total_prs = 2, total_users = 4, open_prs = 1, merged_prs = 1, active_users = 2,
           average_reviewers = 3 / 2\<rparr>"
    by (simp add: spec_stats_def demo_defs two_prs_def partly_inactive_def merged_1024_def
        pr_1025_def)
  have e2: "spec_stats (pull_requests backend4) (users backend4) =
     \<lparr>total_prs = 0, total_users = 4, open_prs = 0, merged_prs = 0, active_users = 4,
           average_reviewers = 0\<rparr>"
    by (simp add: spec_stats_def demo_defs)
  from GetStats_aggregates [of two_prs] a
  obtain avg where "GetStats two_prs =
      (Inr ((spec_stats (pull_requests two_prs) (users two_prs))\<lparr>average_reviewers := avg\<rparr>),
       two_prs)"
    and "avg = float64 (average_reviewers (spec_stats (pull_requests two_prs) (users two_prs)))"
    by blast
  then have c1: "GetStats two_prs =
     (Inr \<lparr>total_prs = 2, total_users = 4, open_prs = 1, merged_prs = 1, active_users = 2,
           average_reviewers = 3 / 2\<rparr>, two_prs)"
    by (simp add: e1 float64_three_halves)
  from GetStats_aggregates [of backend4] b
  obtain avg0 where "GetStats backend4 =
      (Inr ((spec_stats (pull_requests backend4) (users backend4))\<lparr>average_reviewers := avg0\<rparr>),
       backend4)"
    and "avg0 = 0"
    by blast
  then have c2: "GetStats backend4 =
     (Inr \<lparr>total_prs = 0, total_users = 4, open_prs = 0, merged_prs = 0, active_users = 4,
           average_reviewers = 0\<rparr>, backend4)"
    by (simp add: e2)
  from a b c1 c2 show ?thesis by simp
qed

section \<open>DeactivateTeam\<close>













end
